theory Spec2Isabelle
  imports Main
begin

section \<open>Error values\<close>

text \<open>
  The package works on Go \<^verbatim>\<open>error\<close> interface values. An interface value is either
  the nil interface or holds a dynamic value; \<open>error option\<close> models it, \<open>None\<close> being
  the nil interface. The dynamic values are:
  \<^item> \<open>ErrorString s\<close>: what \<^verbatim>\<open>errors.New(s)\<close> returns (and \<^verbatim>\<open>fmt.Errorf\<close> without
    \<^verbatim>\<open>%w\<close>): text \<open>s\<close>, no cause, no formatter;
  \<^item> \<open>Formatted s f\<close>: a foreign leaf error with text \<open>s\<close> that implements
    \<^verbatim>\<open>fmt.Formatter\<close>; \<open>f flag verb\<close> is what its \<^verbatim>\<open>Format\<close> writes (\<open>flag\<close> is the
    \<^verbatim>\<open>+\<close> flag);
  \<^item> \<open>Causer s c\<close>: a foreign error with text \<open>s\<close> exposing \<^verbatim>\<open>Cause() error\<close>, which
    returns \<open>c\<close> (the test suite's \<^verbatim>\<open>causeImpl\<close>; it may expose \<^verbatim>\<open>Unwrap\<close> as well, the
    type switch of \<^verbatim>\<open>ErrorTimeFinder\<close> never gets there);
  \<^item> \<open>Unwrapper s u\<close>: a foreign error with text \<open>s\<close> exposing only \<^verbatim>\<open>Unwrap() error\<close>,
    which returns \<open>u\<close> (\<^verbatim>\<open>fmt.Errorf("...%w", u)\<close>);
  \<^item> \<open>TimestampPtr p\<close>: a \<^verbatim>\<open>*timestampError\<close>; \<open>p = None\<close> is the nil pointer, which
    held in an interface is \<^emph>\<open>not\<close> the nil interface; \<open>Some (err, time, extended)\<close>
    are the fields of the struct pointed to;
  \<^item> \<open>CatcherPtr c\<close>: a pointer to a collector of this package (both collector types
    have an \<^verbatim>\<open>Error\<close> method in \<^verbatim>\<open>part_000\<close>, so they are errors).

  Foreign errors are finite values here, so their cause chains are finite. The
  struct a \<^verbatim>\<open>*timestampError\<close> points to is held by value; its fields \<^verbatim>\<open>err\<close> and \<^verbatim>\<open>time\<close>
  are never written after it is made, and \<^verbatim>\<open>extended\<close> is written by \<^verbatim>\<open>setExtended\<close> only
  (see there).

  The sources: the error wrapper, \<^verbatim>\<open>ErrorTimeFinder\<close>, the \<^verbatim>\<open>timeAnnotatingCatcher\<close> and
  the \<^verbatim>\<open>ErrorChannel\<close> are those of \<^verbatim>\<open>catcher_timestamp.go\<close>; the \<^verbatim>\<open>baseCatcher\<close>, whose
  \<^verbatim>\<open>safeAdd\<close> merges collectors, and the \<^verbatim>\<open>Error\<close> method of both collector types are
  those of \<^verbatim>\<open>part_000\<close>, lines 380 to 588 and line 873.
\<close>

type_synonym addr = nat

type_synonym time = int

abbreviation (input) zeroTime :: time where
  "zeroTime \<equiv> 0"

datatype cref = BaseRef addr | StampRef addr

datatype error =
    ErrorString string
  | Formatted string "bool \<Rightarrow> char \<Rightarrow> string"
  | Causer string "error option"
  | Unwrapper string "error option"
  | TimestampPtr "(error option \<times> time \<times> bool) option"
  | CatcherPtr cref

type_synonym timestampError = "error option \<times> time \<times> bool"

type_synonym tsptr = "timestampError option"

text \<open>
  A call that does not return normally: a panic (\<open>NilDereference\<close>, \<open>SliceBounds\<close>),
  a goroutine blocked for ever on a mutex that it holds itself (\<open>Deadlock\<close>), or a
  recursion deeper than the fuel given to the model (\<open>OutOfFuel\<close>).
\<close>

datatype fault = NilDereference | SliceBounds | Deadlock | OutOfFuel

definition isPanic :: "fault \<Rightarrow> bool" where
  "isPanic f = (f = NilDereference \<or> f = SliceBounds)"

section \<open>Finding a timestamp\<close>

text \<open>
  The \<^verbatim>\<open>for\<close> loop of \<^verbatim>\<open>ErrorTimeFinder\<close>: a type switch on the current error, in the
  order of the source: \<^verbatim>\<open>*timestampError\<close>, then \<^verbatim>\<open>Cause()\<close>, then \<^verbatim>\<open>Unwrap()\<close>.
  No case matches the nil interface or an error without cause, and the loop breaks.
\<close>

fun timeFinderLoop :: "error option \<Rightarrow> time \<times> bool" where
  "timeFinderLoop None = (zeroTime, False)"
| "timeFinderLoop (Some (TimestampPtr None)) = (zeroTime, False)"
| "timeFinderLoop (Some (TimestampPtr (Some (e, t, x)))) = (t, True)"
| "timeFinderLoop (Some (Causer s c)) = timeFinderLoop c"
| "timeFinderLoop (Some (Unwrapper s u)) = timeFinderLoop u"
| "timeFinderLoop (Some (ErrorString s)) = (zeroTime, False)"
| "timeFinderLoop (Some (Formatted s f)) = (zeroTime, False)"
| "timeFinderLoop (Some (CatcherPtr c)) = (zeroTime, False)"

definition ErrorTimeFinder :: "error option \<Rightarrow> time \<times> bool" where
  "ErrorTimeFinder err =
     (case err of
        None \<Rightarrow> (zeroTime, False)
      | Some e \<Rightarrow>
          (case e of
             TimestampPtr tserr \<Rightarrow>
               (case tserr of
                  None \<Rightarrow> (zeroTime, False)
                | Some (ie, t, x) \<Rightarrow> (t, True))
           | _ \<Rightarrow> timeFinderLoop err))"

text \<open>
  The chain the claim speaks of, written from the spec's words: the error itself, then
  what its cause (or else its unwrap) exposes, repeatedly. A timestamped node exposes its
  inner error; a nil timestamp pointer exposes nothing.
\<close>

fun chain :: "error option \<Rightarrow> error list" where
  "chain None = []"
| "chain (Some (TimestampPtr None)) = [TimestampPtr None]"
| "chain (Some (TimestampPtr (Some (e, t, x)))) = TimestampPtr (Some (e, t, x)) # chain e"
| "chain (Some (Causer s c)) = Causer s c # chain c"
| "chain (Some (Unwrapper s u)) = Unwrapper s u # chain u"
| "chain (Some (ErrorString s)) = [ErrorString s]"
| "chain (Some (Formatted s f)) = [Formatted s f]"
| "chain (Some (CatcherPtr c)) = [CatcherPtr c]"

fun stampOf :: "error \<Rightarrow> time option" where
  "stampOf (TimestampPtr (Some (e, t, x))) = Some t"
| "stampOf _ = None"

fun firstStamp :: "error list \<Rightarrow> time option" where
  "firstStamp [] = None"
| "firstStamp (e # es) = (case stampOf e of Some t \<Rightarrow> Some t | None \<Rightarrow> firstStamp es)"

section \<open>Rendering an error as text\<close>

text \<open>
  What the package takes from Go's library: \<open>rfc3339 t\<close> is
  \<^verbatim>\<open>t.Format(time.RFC3339)\<close>, \<open>quoted s\<close> is \<^verbatim>\<open>%q\<close> of a string, \<open>panicNote verb m\<close> is
  what \<^verbatim>\<open>fmt\<close> prints in place of an operand whose method \<open>m\<close> panicked under \<open>verb\<close>,
  and \<open>errorf form args\<close> is \<^verbatim>\<open>fmt.Errorf(form, args...)\<close>.
\<close>

datatype arg = ArgString string | ArgBool bool | ArgInt int | ArgError "error option"

record lib =
  rfc3339 :: "time \<Rightarrow> string"
  quoted :: "string \<Rightarrow> string"
  panicNote :: "char \<Rightarrow> string \<Rightarrow> string"
  errorf :: "string \<Rightarrow> arg list \<Rightarrow> error"

text \<open>
  \<open>errorMethod\<close> is the dynamic \<^verbatim>\<open>err.Error()\<close>; \<open>stringMethod\<close> is
  \<^verbatim>\<open>(*timestampError).String\<close> on the fields \<open>err\<close> and \<open>extended\<close>; \<open>sprintfErr\<close> is
  \<^verbatim>\<open>fmt.Sprintf\<close> of one verb on one error operand (a \<^verbatim>\<open>Formatter\<close> is asked first, then
  \<^verbatim>\<open>Error()\<close>; a panic in either is recovered by \<^verbatim>\<open>fmt\<close>, which prints \<^verbatim>\<open><nil>\<close> for a nil
  receiver); \<open>formatMethod\<close> is \<^verbatim>\<open>(*timestampError).Format\<close>, returning what it wrote and
  the fault that cut it short, if any. \<open>K c\<close> is the outcome of \<^verbatim>\<open>Error()\<close> on the
  collector \<open>c\<close>.
\<close>

fun errorMethod :: "lib \<Rightarrow> (cref \<Rightarrow> fault + string) \<Rightarrow> error \<Rightarrow> fault + string"
and stringMethod :: "lib \<Rightarrow> (cref \<Rightarrow> fault + string) \<Rightarrow> error option \<Rightarrow> bool \<Rightarrow> fault + string"
and sprintfErr :: "lib \<Rightarrow> (cref \<Rightarrow> fault + string) \<Rightarrow> bool \<Rightarrow> char \<Rightarrow> error option \<Rightarrow> fault + string"
and formatMethod :: "lib \<Rightarrow> (cref \<Rightarrow> fault + string) \<Rightarrow> bool \<Rightarrow> char \<Rightarrow> error option \<Rightarrow> time \<Rightarrow> bool
                      \<Rightarrow> string \<times> fault option"
where
  "errorMethod L K (ErrorString s) = Inr s"
| "errorMethod L K (Formatted s f) = Inr s"
| "errorMethod L K (Causer s c) = Inr s"
| "errorMethod L K (Unwrapper s u) = Inr s"
| "errorMethod L K (TimestampPtr None) = Inl NilDereference"
| "errorMethod L K (TimestampPtr (Some (e, t, x))) =
     (case stringMethod L K e x of
        Inl f \<Rightarrow> Inl f
      | Inr s \<Rightarrow> Inr (''['' @ rfc3339 L t @ ''], '' @ s))"
| "errorMethod L K (CatcherPtr c) = K c"
| "stringMethod L K None x = Inr ''''"
| "stringMethod L K (Some e) x =
     (if x then sprintfErr L K True (CHR ''v'') (Some e) else errorMethod L K e)"
| "sprintfErr L K flag verb None =
     Inr (if verb = CHR ''v'' then ''<nil>'' else ''%!'' @ [verb] @ ''(<nil>)'')"
| "sprintfErr L K flag verb (Some (Formatted s f)) = Inr (f flag verb)"
| "sprintfErr L K flag verb (Some (TimestampPtr None)) = Inr ''<nil>''"
| "sprintfErr L K flag verb (Some (TimestampPtr (Some (e, t, x)))) =
     (case formatMethod L K flag verb e t x of
        (out, None) \<Rightarrow> Inr out
      | (out, Some f) \<Rightarrow> if isPanic f then Inr (out @ panicNote L verb ''Format'') else Inl f)"
| "sprintfErr L K flag verb (Some (ErrorString s)) =
     Inr (if verb = CHR ''q'' then quoted L s else s)"
| "sprintfErr L K flag verb (Some (Causer s c)) =
     Inr (if verb = CHR ''q'' then quoted L s else s)"
| "sprintfErr L K flag verb (Some (Unwrapper s u)) =
     Inr (if verb = CHR ''q'' then quoted L s else s)"
| "sprintfErr L K flag verb (Some (CatcherPtr c)) =
     (case K c of
        Inl f \<Rightarrow> if isPanic f then Inr (panicNote L verb ''Error'') else Inl f
      | Inr s \<Rightarrow> Inr (if verb = CHR ''q'' then quoted L s else s))"
| "formatMethod L K flag verb e t x =
     (if verb = CHR ''v'' \<or> verb = CHR ''s'' then
        (case (if verb = CHR ''v'' \<and> flag
               then (case sprintfErr L K True (CHR ''v'') e of
                       Inl f \<Rightarrow> Inl f
                     | Inr s \<Rightarrow> Inr (''['' @ rfc3339 L t @ ''] '' @ s))
               else Inr '''') of
           Inl f \<Rightarrow> ('''', Some f)
         | Inr written \<Rightarrow>
             (case stringMethod L K e x of
                Inl f \<Rightarrow> (written, Some f)
              | Inr s \<Rightarrow> (written @ ''['' @ rfc3339 L t @ ''] '' @ s, None)))
      else if verb = CHR ''q'' then
        (case stringMethod L K e x of
           Inl f \<Rightarrow> ('''', Some f)
         | Inr s \<Rightarrow> (''['' @ rfc3339 L t @ ''] '' @ quoted L s, None))
      else ('''', None))"

definition newline :: string where
  "newline = [CHR 0x0A]"

text \<open>\<^verbatim>\<open>strings.Join(output, "\n")\<close>.\<close>

fun joinNL :: "string list \<Rightarrow> string" where
  "joinNL [] = ''''"
| "joinNL [s] = s"
| "joinNL (s # r # rs) = s @ newline @ joinNL (r # rs)"

text \<open>The loop that fills \<^verbatim>\<open>output\<close> stops at the first element whose rendering faults.\<close>

fun sequenceR :: "(fault + 'a) list \<Rightarrow> fault + 'a list" where
  "sequenceR [] = Inr []"
| "sequenceR (r # rs) =
     (case r of
        Inl f \<Rightarrow> Inl f
      | Inr v \<Rightarrow> (case sequenceR rs of Inl f \<Rightarrow> Inl f | Inr vs \<Rightarrow> Inr (v # vs)))"

definition joined :: "(fault + string) list \<Rightarrow> fault + string" where
  "joined rs = (case sequenceR rs of Inl f \<Rightarrow> Inl f | Inr ss \<Rightarrow> Inr (joinNL ss))"

section \<open>The collectors and the world they live in\<close>

text \<open>
  A \<^verbatim>\<open>sync.RWMutex\<close> as one goroutine sees it: held for writing or not, and the number
  of read locks held. The model follows the calls of one goroutine. Every method releases
  the locks it took before it returns, so a call starts with the mutexes free, and a
  mutex that a \<^verbatim>\<open>Lock\<close> or \<^verbatim>\<open>RLock\<close> finds held is held by the caller itself: the call
  never returns.
\<close>

record rwmutex =
  writer :: bool
  readers :: nat

datatype stringer = extendedCatcher | simpleCatcher | basicCatcher

record baseCatcher =
  errs :: "error list"
  maxSize :: int
  mutex :: rwmutex
  Stringer :: stringer

record timeAnnotatingCatcher =
  tsErrs :: "tsptr list"
  tsMaxSize :: int
  extended :: bool
  mu :: rwmutex

text \<open>
  Collectors are shared through pointers, so they live in a store. \<open>clock\<close> is the
  sequence of instants that successive calls of \<^verbatim>\<open>time.Now()\<close> return, \<open>ticks\<close> the
  number of calls made so far.
\<close>

record world =
  bases :: "addr \<Rightarrow> baseCatcher option"
  stampers :: "addr \<Rightarrow> timeAnnotatingCatcher option"
  nextAddr :: addr
  clock :: "nat \<Rightarrow> time"
  ticks :: nat

type_synonym 'a M = "world \<Rightarrow> (fault + 'a) \<times> world"

definition returnM :: "'a \<Rightarrow> 'a M" where
  "returnM v w = (Inr v, w)"

definition failM :: "fault \<Rightarrow> 'a M" where
  "failM f w = (Inl f, w)"

definition bindM :: "'a M \<Rightarrow> ('a \<Rightarrow> 'b M) \<Rightarrow> 'b M" where
  "bindM m k w = (case m w of (Inl f, w') \<Rightarrow> (Inl f, w') | (Inr v, w') \<Rightarrow> k v w')"

fun forEach :: "'a list \<Rightarrow> ('a \<Rightarrow> unit M) \<Rightarrow> unit M" where
  "forEach [] body = returnM ()"
| "forEach (x # xs) body = bindM (body x) (\<lambda>_. forEach xs body)"

text \<open>
  \<^verbatim>\<open>defer release()\<close>: the release runs when the body returns and when it panics, not
  when it never returns.
\<close>

definition deferred :: "(world \<Rightarrow> world) \<Rightarrow> 'a M \<Rightarrow> 'a M" where
  "deferred release body w =
     (case body w of
        (Inl f, w') \<Rightarrow> if isPanic f then (Inl f, release w') else (Inl f, w')
      | (Inr v, w') \<Rightarrow> (Inr v, release w'))"

definition mutexOf :: "cref \<Rightarrow> world \<Rightarrow> rwmutex option" where
  "mutexOf c w =
     (case c of
        BaseRef a \<Rightarrow> map_option mutex (bases w a)
      | StampRef a \<Rightarrow> map_option mu (stampers w a))"

definition setMutex :: "cref \<Rightarrow> rwmutex \<Rightarrow> world \<Rightarrow> world" where
  "setMutex c m w =
     (case c of
        BaseRef a \<Rightarrow>
          (case bases w a of
             None \<Rightarrow> w
           | Some b \<Rightarrow> w\<lparr>bases := (bases w)(a \<mapsto> b\<lparr>mutex := m\<rparr>)\<rparr>)
      | StampRef a \<Rightarrow>
          (case stampers w a of
             None \<Rightarrow> w
           | Some t \<Rightarrow> w\<lparr>stampers := (stampers w)(a \<mapsto> t\<lparr>mu := m\<rparr>)\<rparr>))"

definition Lock :: "cref \<Rightarrow> unit M" where
  "Lock c w =
     (case mutexOf c w of
        None \<Rightarrow> (Inl NilDereference, w)
      | Some m \<Rightarrow>
          if writer m \<or> 0 < readers m then (Inl Deadlock, w)
          else (Inr (), setMutex c (m\<lparr>writer := True\<rparr>) w))"

definition Unlock :: "cref \<Rightarrow> world \<Rightarrow> world" where
  "Unlock c w =
     (case mutexOf c w of None \<Rightarrow> w | Some m \<Rightarrow> setMutex c (m\<lparr>writer := False\<rparr>) w)"

definition RLock :: "cref \<Rightarrow> unit M" where
  "RLock c w =
     (case mutexOf c w of
        None \<Rightarrow> (Inl NilDereference, w)
      | Some m \<Rightarrow>
          if writer m then (Inl Deadlock, w)
          else (Inr (), setMutex c (m\<lparr>readers := Suc (readers m)\<rparr>) w))"

definition RUnlock :: "cref \<Rightarrow> world \<Rightarrow> world" where
  "RUnlock c w =
     (case mutexOf c w of
        None \<Rightarrow> w
      | Some m \<Rightarrow> setMutex c (m\<lparr>readers := readers m - 1\<rparr>) w)"

definition withLock :: "cref \<Rightarrow> 'a M \<Rightarrow> 'a M" where
  "withLock c body = bindM (Lock c) (\<lambda>_. deferred (Unlock c) body)"

definition withRLock :: "cref \<Rightarrow> 'a M \<Rightarrow> 'a M" where
  "withRLock c body = bindM (RLock c) (\<lambda>_. deferred (RUnlock c) body)"

section \<open>Reading a collector\<close>

text \<open>
  The methods of the \<^verbatim>\<open>Catcher\<close> interface that both collector types implement the
  same way: \<^verbatim>\<open>Len\<close>, \<^verbatim>\<open>HasErrors\<close> and \<^verbatim>\<open>Errors\<close> take the read lock, read, and release
  it. A method called through a pointer to nothing panics.
\<close>

definition stored :: "cref \<Rightarrow> world \<Rightarrow> error option list option" where
  "stored c w =
     (case c of
        BaseRef a \<Rightarrow> map_option (\<lambda>b. map Some (errs b)) (bases w a)
      | StampRef a \<Rightarrow> map_option (\<lambda>t. map (\<lambda>p. Some (TimestampPtr p)) (tsErrs t)) (stampers w a))"

definition reading :: "cref \<Rightarrow> (error option list \<Rightarrow> 'a) \<Rightarrow> 'a M" where
  "reading c f =
     withRLock c
       (\<lambda>w. case stored c w of None \<Rightarrow> (Inl NilDereference, w) | Some es \<Rightarrow> (Inr (f es), w))"

definition Len :: "cref \<Rightarrow> int M" where
  "Len c = reading c (\<lambda>es. int (length es))"

definition HasErrors :: "cref \<Rightarrow> bool M" where
  "HasErrors c = reading c (\<lambda>es. 0 < length es)"

definition Errors :: "cref \<Rightarrow> error option list M" where
  "Errors c = reading c (\<lambda>es. es)"

text \<open>
  The three \<^verbatim>\<open>String\<close> methods behind a \<^verbatim>\<open>baseCatcher\<close>'s embedded \<^verbatim>\<open>Stringer\<close>:
  \<^verbatim>\<open>fmt.Sprintf("%+v", err)\<close>, \<^verbatim>\<open>fmt.Sprintf("%s", err)\<close> and \<^verbatim>\<open>err.Error()\<close>.
\<close>

definition renderBase :: "lib \<Rightarrow> (cref \<Rightarrow> fault + string) \<Rightarrow> stringer \<Rightarrow> error \<Rightarrow> fault + string" where
  "renderBase L K p e =
     (case p of
        extendedCatcher \<Rightarrow> sprintfErr L K True (CHR ''v'') (Some e)
      | simpleCatcher \<Rightarrow> sprintfErr L K False (CHR ''s'') (Some e)
      | basicCatcher \<Rightarrow> errorMethod L K e)"

text \<open>
  The loop body of \<^verbatim>\<open>timeAnnotatingCatcher.String\<close>: both branches of the test on
  \<^verbatim>\<open>err.extended\<close> call \<^verbatim>\<open>err.String()\<close>. Reading \<^verbatim>\<open>err.extended\<close> through a nil pointer
  panics.
\<close>

definition renderStamp :: "lib \<Rightarrow> (cref \<Rightarrow> fault + string) \<Rightarrow> tsptr \<Rightarrow> fault + string" where
  "renderStamp L K p =
     (case p of
        None \<Rightarrow> Inl NilDereference
      | Some (e, t, x) \<Rightarrow> if x then stringMethod L K e x else stringMethod L K e x)"

text \<open>
  \<open>nested w c\<close> is the outcome of \<^verbatim>\<open>Error()\<close> on the collector \<open>c\<close> in the world \<open>w\<close>,
  which rendering a stored error that holds a collector needs.
\<close>

definition String :: "lib \<Rightarrow> (world \<Rightarrow> cref \<Rightarrow> fault + string) \<Rightarrow> cref \<Rightarrow> string M" where
  "String L nested c =
     withRLock c
       (\<lambda>w. case c of
          BaseRef a \<Rightarrow>
            (case bases w a of
               None \<Rightarrow> (Inl NilDereference, w)
             | Some b \<Rightarrow> (joined (map (renderBase L (nested w) (Stringer b)) (errs b)), w))
        | StampRef a \<Rightarrow>
            (case stampers w a of
               None \<Rightarrow> (Inl NilDereference, w)
             | Some t \<Rightarrow> (joined (map (renderStamp L (nested w)) (tsErrs t)), w)))"

text \<open>
  The slice \<^verbatim>\<open>output\<close> that the loop of \<^verbatim>\<open>String\<close> fills, seen from the world \<open>w\<close> in which
  \<^verbatim>\<open>String\<close> is called: the outcome of the loop body on each stored error, in slice order,
  computed while the read lock is held. It is what the code prints, whatever the
  specification says it should.
\<close>

definition stringOutput :: "lib \<Rightarrow> (world \<Rightarrow> cref \<Rightarrow> fault + string) \<Rightarrow> cref \<Rightarrow> world \<Rightarrow> (fault + string) list" where
  "stringOutput L nested c w =
     (case c of
        BaseRef a \<Rightarrow>
          (case bases w a of
             None \<Rightarrow> []
           | Some b \<Rightarrow> map (renderBase L (nested (snd (RLock c w))) (Stringer b)) (errs b))
      | StampRef a \<Rightarrow>
          (case stampers w a of
             None \<Rightarrow> []
           | Some t \<Rightarrow> map (renderStamp L (nested (snd (RLock c w)))) (tsErrs t)))"

definition Resolve :: "lib \<Rightarrow> (world \<Rightarrow> cref \<Rightarrow> fault + string) \<Rightarrow> cref \<Rightarrow> error option M" where
  "Resolve L nested c =
     bindM (HasErrors c)
       (\<lambda>h. if \<not> h then returnM None
            else bindM (String L nested c) (\<lambda>s. returnM (Some (ErrorString s))))"

text \<open>\<^verbatim>\<open>c.Resolve().Error()\<close>: a method call on the nil interface panics.\<close>

definition Error :: "lib \<Rightarrow> (world \<Rightarrow> cref \<Rightarrow> fault + string) \<Rightarrow> cref \<Rightarrow> string M" where
  "Error L nested c =
     bindM (Resolve L nested c)
       (\<lambda>r. case r of
              None \<Rightarrow> failM NilDereference
            | Some e \<Rightarrow> (\<lambda>w. (errorMethod L (nested w) e, w)))"

text \<open>
  A collector can hold an error that holds a collector, itself included, so the depth of
  the calls of \<^verbatim>\<open>Error()\<close> is not bounded by the data: \<open>n\<close> bounds it.
\<close>

primrec nestedError :: "lib \<Rightarrow> nat \<Rightarrow> world \<Rightarrow> cref \<Rightarrow> fault + string" where
  "nestedError L 0 = (\<lambda>w c. Inl OutOfFuel)"
| "nestedError L (Suc n) = (\<lambda>w c. fst (Error L (nestedError L n) c w))"

section \<open>Adding to a \<^verbatim>\<open>baseCatcher\<close>\<close>

text \<open>
  The last five lines of \<^verbatim>\<open>baseCatcher.safeAdd\<close>: append while below capacity (or
  without one), otherwise drop the oldest error first. Slicing \<^verbatim>\<open>c.errs[1:]\<close> of an
  empty slice panics.
\<close>

definition baseStore :: "addr \<Rightarrow> error \<Rightarrow> unit M" where
  "baseStore a e w =
     (case bases w a of
        None \<Rightarrow> (Inl NilDereference, w)
      | Some b \<Rightarrow>
          if maxSize b \<le> 0 \<or> maxSize b > int (length (errs b))
          then (Inr (), w\<lparr>bases := (bases w)(a \<mapsto> b\<lparr>errs := errs b @ [e]\<rparr>)\<rparr>)
          else (case errs b of
                  [] \<Rightarrow> (Inl SliceBounds, w)
                | _ # rest \<Rightarrow> (Inr (), w\<lparr>bases := (bases w)(a \<mapsto> b\<lparr>errs := rest @ [e]\<rparr>)\<rparr>)))"

text \<open>
  \<^verbatim>\<open>baseCatcher.safeAdd\<close> (\<^verbatim>\<open>part_000\<close>, line 442), with the method it calls on itself,
  \<^verbatim>\<open>c.Extend\<close>, as the parameter \<open>ext\<close>.
\<close>

definition safeAdd :: "(addr \<Rightarrow> error option list \<Rightarrow> unit M) \<Rightarrow> addr \<Rightarrow> error \<Rightarrow> unit M" where
  "safeAdd ext a err =
     (case err of
        CatcherPtr catcher \<Rightarrow>
          bindM (HasErrors catcher)
            (\<lambda>h. if h then bindM (Errors catcher) (\<lambda>es. ext a es) else returnM ())
      | _ \<Rightarrow> baseStore a err)"

definition extendBody :: "(addr \<Rightarrow> error option list \<Rightarrow> unit M) \<Rightarrow> addr \<Rightarrow> error option list \<Rightarrow> unit M" where
  "extendBody ext a es =
     (if length es = 0 then returnM ()
      else withLock (BaseRef a)
             (forEach es (\<lambda>err. case err of None \<Rightarrow> returnM () | Some e \<Rightarrow> safeAdd ext a e)))"

text \<open>
  \<^verbatim>\<open>baseCatcher.Extend\<close> calls \<^verbatim>\<open>safeAdd\<close>, which calls \<^verbatim>\<open>Extend\<close>: \<open>n\<close> bounds the depth
  of these calls.
\<close>

primrec baseCatcher_Extend :: "nat \<Rightarrow> addr \<Rightarrow> error option list \<Rightarrow> unit M" where
  "baseCatcher_Extend 0 = (\<lambda>a es. failM OutOfFuel)"
| "baseCatcher_Extend (Suc n) = extendBody (baseCatcher_Extend n)"

definition baseCatcher_Add :: "nat \<Rightarrow> addr \<Rightarrow> error option \<Rightarrow> unit M" where
  "baseCatcher_Add n a err =
     (case err of
        None \<Rightarrow> returnM ()
      | Some e \<Rightarrow> withLock (BaseRef a) (safeAdd (baseCatcher_Extend n) a e))"

definition baseCatcher_New :: "nat \<Rightarrow> addr \<Rightarrow> string \<Rightarrow> unit M" where
  "baseCatcher_New n a e =
     (if e = [] then returnM () else baseCatcher_Add n a (Some (ErrorString e)))"

definition baseCatcher_Errorf :: "lib \<Rightarrow> nat \<Rightarrow> addr \<Rightarrow> string \<Rightarrow> arg list \<Rightarrow> unit M" where
  "baseCatcher_Errorf L n a form args =
     (if form = [] then returnM ()
      else if length args = 0 then baseCatcher_New n a form
      else baseCatcher_Add n a (Some (errorf L form args)))"

section \<open>Timestamped errors\<close>

definition now :: "time M" where
  "now w = (Inr (clock w (ticks w)), w\<lparr>ticks := Suc (ticks w)\<rparr>)"

definition newTimeStampError :: "error option \<Rightarrow> tsptr M" where
  "newTimeStampError err =
     (case err of
        None \<Rightarrow> returnM None
      | Some e \<Rightarrow>
          (case e of
             TimestampPtr v \<Rightarrow> returnM v
           | _ \<Rightarrow> bindM now (\<lambda>t. returnM (Some (Some e, t, False)))))"

text \<open>
  \<^verbatim>\<open>e.extended = v; return e\<close>. Through a nil pointer the write panics. The struct being
  held by value, the write shows in the pointer returned. That is all there is to it when
  the pointer is fresh (the last case of \<^verbatim>\<open>safeAdd\<close>, and \<^verbatim>\<open>Extend\<close> of an error that is
  not a wrapper) or the flag already is \<open>v\<close>. When \<^verbatim>\<open>Extend\<close> is given a wrapper that
  carries the other flag, the code writes the flag into the struct that every holder of the
  pointer sees; here only the entry that \<^verbatim>\<open>Extend\<close> stores shows it.
\<close>

definition setExtended :: "bool \<Rightarrow> tsptr \<Rightarrow> tsptr M" where
  "setExtended v p =
     (case p of
        None \<Rightarrow> failM NilDereference
      | Some (e, t, x) \<Rightarrow> returnM (Some (e, t, v)))"

text \<open>
  \<^verbatim>\<open>WrapErrorTime\<close> returns the \<^verbatim>\<open>*timestampError\<close> as an \<^verbatim>\<open>error\<close>: the interface
  value always holds the pointer, nil or not.
\<close>

definition WrapErrorTime :: "error option \<Rightarrow> error option M" where
  "WrapErrorTime err = bindM (newTimeStampError err) (\<lambda>p. returnM (Some (TimestampPtr p)))"

section \<open>Adding to a \<^verbatim>\<open>timeAnnotatingCatcher\<close>\<close>

definition stampStore :: "addr \<Rightarrow> tsptr \<Rightarrow> unit M" where
  "stampStore a e w =
     (case stampers w a of
        None \<Rightarrow> (Inl NilDereference, w)
      | Some c \<Rightarrow>
          if tsMaxSize c \<le> 0 \<or> tsMaxSize c > int (length (tsErrs c))
          then (Inr (), w\<lparr>stampers := (stampers w)(a \<mapsto> c\<lparr>tsErrs := tsErrs c @ [e]\<rparr>)\<rparr>)
          else (case tsErrs c of
                  [] \<Rightarrow> (Inl SliceBounds, w)
                | _ # rest \<Rightarrow>
                    (Inr (), w\<lparr>stampers := (stampers w)(a \<mapsto> c\<lparr>tsErrs := rest @ [e]\<rparr>)\<rparr>)))"

definition getExtended :: "addr \<Rightarrow> bool M" where
  "getExtended a w =
     (case stampers w a of None \<Rightarrow> (Inl NilDereference, w) | Some c \<Rightarrow> (Inr (extended c), w))"

text \<open>
  \<^verbatim>\<open>timeAnnotatingCatcher.safeAdd\<close> (\<^verbatim>\<open>catcher_timestamp.go\<close>, line 187). In the last
  case the method calls itself on a \<^verbatim>\<open>*timestampError\<close>, which the second case stores.
\<close>

definition stampSafeAdd :: "addr \<Rightarrow> error option \<Rightarrow> unit M" where
  "stampSafeAdd a err =
     (case err of
        None \<Rightarrow> returnM ()
      | Some e \<Rightarrow>
          (case e of
             TimestampPtr p \<Rightarrow> stampStore a p
           | _ \<Rightarrow>
               bindM (newTimeStampError (Some e))
                 (\<lambda>p. bindM (getExtended a)
                   (\<lambda>x. bindM (setExtended x p) (\<lambda>p'. stampStore a p')))))"

definition timeAnnotatingCatcher_Add :: "addr \<Rightarrow> error option \<Rightarrow> unit M" where
  "timeAnnotatingCatcher_Add a err =
     (case err of
        None \<Rightarrow> returnM ()
      | Some e \<Rightarrow> withLock (StampRef a) (stampSafeAdd a (Some e)))"

text \<open>The body of the \<^verbatim>\<open>range\<close> loop of \<^verbatim>\<open>timeAnnotatingCatcher.Extend\<close>.\<close>

definition extendStep :: "addr \<Rightarrow> error option \<Rightarrow> unit M" where
  "extendStep a err =
     (case err of
        None \<Rightarrow> returnM ()
      | Some e \<Rightarrow>
          bindM (newTimeStampError (Some e))
            (\<lambda>p. bindM (getExtended a)
              (\<lambda>x. bindM (setExtended x p)
                (\<lambda>p'. stampSafeAdd a (Some (TimestampPtr p'))))))"

definition timeAnnotatingCatcher_Extend :: "addr \<Rightarrow> error option list \<Rightarrow> unit M" where
  "timeAnnotatingCatcher_Extend a es =
     (if length es = 0 then returnM ()
      else withLock (StampRef a) (forEach es (extendStep a)))"

definition timeAnnotatingCatcher_New :: "addr \<Rightarrow> string \<Rightarrow> unit M" where
  "timeAnnotatingCatcher_New a e =
     (if e = [] then returnM () else timeAnnotatingCatcher_Add a (Some (ErrorString e)))"

definition timeAnnotatingCatcher_Errorf :: "lib \<Rightarrow> addr \<Rightarrow> string \<Rightarrow> arg list \<Rightarrow> unit M" where
  "timeAnnotatingCatcher_Errorf L a f args =
     (if f = [] then returnM ()
      else if length args = 0 then timeAnnotatingCatcher_New a f
      else timeAnnotatingCatcher_Add a (Some (errorf L f args)))"

section \<open>Constructors\<close>

definition freeMutex :: rwmutex where
  "freeMutex = \<lparr>writer = False, readers = 0\<rparr>"

definition makeCatcher :: "stringer \<Rightarrow> int \<Rightarrow> world \<Rightarrow> addr \<times> world" where
  "makeCatcher p sz w =
     (nextAddr w,
      w\<lparr>bases := (bases w)(nextAddr w \<mapsto>
                   \<lparr>errs = [], maxSize = sz, mutex = freeMutex, Stringer = p\<rparr>),
        nextAddr := Suc (nextAddr w)\<rparr>)"

definition MakeBasicCatcher :: "int \<Rightarrow> world \<Rightarrow> addr \<times> world" where
  "MakeBasicCatcher sz = makeCatcher basicCatcher sz"

definition MakeSimpleCatcher :: "int \<Rightarrow> world \<Rightarrow> addr \<times> world" where
  "MakeSimpleCatcher sz = makeCatcher simpleCatcher sz"

definition MakeExtendedCatcher :: "int \<Rightarrow> world \<Rightarrow> addr \<times> world" where
  "MakeExtendedCatcher sz = makeCatcher extendedCatcher sz"

definition NewBasicCatcher :: "world \<Rightarrow> addr \<times> world" where
  "NewBasicCatcher = makeCatcher basicCatcher 0"



definition makeStamper :: "bool \<Rightarrow> int \<Rightarrow> world \<Rightarrow> addr \<times> world" where
  "makeStamper x sz w =
     (nextAddr w,
      w\<lparr>stampers := (stampers w)(nextAddr w \<mapsto>
                      \<lparr>tsErrs = [], tsMaxSize = (if sz < 0 then 0 else sz),
                       extended = x, mu = freeMutex\<rparr>),
        nextAddr := Suc (nextAddr w)\<rparr>)"

definition MakeTimestampCatcher :: "int \<Rightarrow> world \<Rightarrow> addr \<times> world" where
  "MakeTimestampCatcher sz = makeStamper False sz"

definition MakeExtendedTimestampCatcher :: "int \<Rightarrow> world \<Rightarrow> addr \<times> world" where
  "MakeExtendedTimestampCatcher sz = makeStamper True sz"

definition NewTimestampCatcher :: "world \<Rightarrow> addr \<times> world" where
  "NewTimestampCatcher = MakeTimestampCatcher 0"

text \<open>A world with no collector in it, whose clock reads \<open>c\<close>.\<close>

definition emptyWorld :: "(nat \<Rightarrow> time) \<Rightarrow> world" where
  "emptyWorld c =
     \<lparr>bases = (\<lambda>_. None), stampers = (\<lambda>_. None), nextAddr = 0, clock = c, ticks = 0\<rparr>"

section \<open>The error channel\<close>

text \<open>
  The two buffered channels are the lists of what they hold, \<open>ctxDone\<close> says whether the
  channel's own context is cancelled. A \<^verbatim>\<open>select\<close> takes one of the cases that are
  ready, chosen by the scheduler (\<open>pick\<close>), and parks the goroutine when none is: then
  the call has not returned, and other goroutines see the state it leaves.
\<close>

record ErrorChannel =
  errRecv :: "error option list"
  errSend :: "error option list"
  chanSize :: nat
  catcher :: addr
  ctxDone :: bool








section \<open>What the claims speak of\<close>

text \<open>
  The eviction policy in the spec's words: a collector of capacity \<open>N\<close> holds the last
  \<open>N\<close> errors submitted to it, all of them when \<open>N\<close> is not positive.
\<close>

definition lastN :: "nat \<Rightarrow> 'a list \<Rightarrow> 'a list" where
  "lastN m xs = drop (length xs - m) xs"

definition window :: "int \<Rightarrow> 'a list \<Rightarrow> 'a list" where
  "window N xs = (if N \<le> 0 then xs else lastN (nat N) xs)"

text \<open>One insertion: what the capacity test of both \<^verbatim>\<open>safeAdd\<close> methods does to the slice.\<close>

definition push :: "int \<Rightarrow> 'a list \<Rightarrow> 'a \<Rightarrow> 'a list" where
  "push N xs e = (if N \<le> 0 \<or> N > int (length xs) then xs @ [e] else tl xs @ [e])"

text \<open>The non-nil errors of a sequence of submissions, in order.\<close>

fun nonNil :: "'a option list \<Rightarrow> 'a list" where
  "nonNil [] = []"
| "nonNil (None # es) = nonNil es"
| "nonNil (Some e # es) = e # nonNil es"

definition isCatcher :: "error \<Rightarrow> bool" where
  "isCatcher e = (case e of CatcherPtr c \<Rightarrow> True | _ \<Rightarrow> False)"

definition isTimestamp :: "error \<Rightarrow> bool" where
  "isTimestamp e = (case e of TimestampPtr p \<Rightarrow> True | _ \<Rightarrow> False)"

text \<open>
  The entry a \<^verbatim>\<open>timeAnnotatingCatcher\<close> with flag \<open>x\<close> stores for the error \<open>e\<close> added
  at the instant \<open>t\<close>: \<open>e\<close> itself when it is a \<^verbatim>\<open>*timestampError\<close>, a new wrapper
  otherwise. \<open>stampAll\<close> is the entries for a sequence of errors, the clock being read
  once for each new wrapper.
\<close>

definition stampEntry :: "bool \<Rightarrow> time \<Rightarrow> error \<Rightarrow> tsptr" where
  "stampEntry x t e = (case e of TimestampPtr p \<Rightarrow> p | _ \<Rightarrow> Some (Some e, t, x))"

fun stampAll :: "bool \<Rightarrow> (nat \<Rightarrow> time) \<Rightarrow> nat \<Rightarrow> error list \<Rightarrow> tsptr list" where
  "stampAll x clk k [] = []"
| "stampAll x clk k (e # es) =
     stampEntry x (clk k) e # stampAll x clk (if isTimestamp e then k else Suc k) es"

text \<open>
  \<open>carries x e p\<close>: the stored entry \<open>p\<close> is the submitted error \<open>e\<close> in the form the
  timestamp collector keeps it.
\<close>

definition carries :: "bool \<Rightarrow> error \<Rightarrow> tsptr \<Rightarrow> bool" where
  "carries x e p =
     (case e of
        TimestampPtr q \<Rightarrow> p = q
      | _ \<Rightarrow> (case p of Some (Some e', t, x') \<Rightarrow> e' = e \<and> x' = x | _ \<Rightarrow> False))"

text \<open>
  The world \<open>w\<close> with the slice of the collector at \<open>a\<close> replaced, and with the clock
  read \<open>k\<close> more times: what a call that returns may change.
\<close>

definition withErrs :: "addr \<Rightarrow> error list \<Rightarrow> world \<Rightarrow> world" where
  "withErrs a xs w =
     (case bases w a of None \<Rightarrow> w | Some b \<Rightarrow> w\<lparr>bases := (bases w)(a \<mapsto> b\<lparr>errs := xs\<rparr>)\<rparr>)"

definition withTsErrs :: "addr \<Rightarrow> tsptr list \<Rightarrow> world \<Rightarrow> world" where
  "withTsErrs a ps w =
     (case stampers w a of
        None \<Rightarrow> w
      | Some c \<Rightarrow> w\<lparr>stampers := (stampers w)(a \<mapsto> c\<lparr>tsErrs := ps\<rparr>)\<rparr>)"

definition ticked :: "nat \<Rightarrow> world \<Rightarrow> world" where
  "ticked k w = w\<lparr>ticks := ticks w + k\<rparr>"

definition newStamps :: "error list \<Rightarrow> nat" where
  "newStamps es = length (filter (\<lambda>e. \<not> isTimestamp e) es)"

text \<open>A call returns when its outcome is a value or a panic.\<close>

definition returns :: "fault + 'a \<Rightarrow> bool" where
  "returns r = (case r of Inl f \<Rightarrow> isPanic f | Inr v \<Rightarrow> True)"


text \<open>
  How many errors a collector of capacity \<open>N\<close> holds after \<open>k\<close> were submitted:
  \<open>min k N\<close> when \<open>N\<close> is positive, \<open>k\<close> otherwise.
\<close>

definition kept :: "int \<Rightarrow> nat \<Rightarrow> nat" where
  "kept N k = (if 0 < N then min k (nat N) else k)"


section \<open>Concrete inputs\<close>

text \<open>
  A clock, a library and worlds to run the model on. \<open>demoWorld\<close> holds a basic
  collector of capacity 2 at address 0 and a timestamp collector of capacity 2 at
  address 1.
\<close>

definition demoClock :: "nat \<Rightarrow> time" where
  "demoClock k = 1700000000 + int k"

definition demoLib :: lib where
  "demoLib =
     \<lparr>rfc3339 = (\<lambda>t. ''2023-11-14T22:13:20Z''),
      quoted = (\<lambda>s. [CHR 0x22] @ s @ [CHR 0x22]),
      panicNote = (\<lambda>verb m. ''%!'' @ [verb] @ ''(PANIC='' @ m @ '' method: nil pointer dereference)''),
      errorf = (\<lambda>form args. ErrorString form)\<rparr>"

definition demoBase :: baseCatcher where
  "demoBase = \<lparr>errs = [], maxSize = 2, mutex = freeMutex, Stringer = basicCatcher\<rparr>"

definition demoStamper :: timeAnnotatingCatcher where
  "demoStamper = \<lparr>tsErrs = [], tsMaxSize = 2, extended = False, mu = freeMutex\<rparr>"

definition demoWorld :: world where
  "demoWorld = snd (MakeTimestampCatcher 2 (snd (MakeBasicCatcher 2 (emptyWorld demoClock))))"

definition demoErrors :: "error option list" where
  "demoErrors = [Some (ErrorString ''a''), None, Some (ErrorString ''b''), Some (ErrorString ''c'')]"

text \<open>
  \<open>flattenWorld\<close>: two unbounded basic collectors, an empty one at address 0 and one at
  address 1 that holds the error \<^verbatim>\<open>errors.New("x")\<close>.
\<close>

definition flattenWorld :: world where
  "flattenWorld =
     (case NewBasicCatcher (emptyWorld demoClock) of
        (c, w1) \<Rightarrow>
          (case NewBasicCatcher w1 of
             (sub, w2) \<Rightarrow> snd (baseCatcher_Add 0 sub (Some (ErrorString ''x'')) w2)))"

text \<open>
  \<open>stampedWorld\<close>: an unbounded timestamp collector at address 0 to which
  \<^verbatim>\<open>errors.New("x")\<close> was added. \<open>nestedWorld\<close>: an unbounded timestamp collector at
  address 0 to which the empty basic collector at address 1 was added.
  \<open>fullWorld\<close>: a timestamp collector of capacity 1 at address 0 that holds
  \<^verbatim>\<open>errors.New("a")\<close>, and the basic collector at address 1 that holds
  \<^verbatim>\<open>errors.New("x")\<close>.
\<close>

definition stampedWorld :: world where
  "stampedWorld =
     (case NewTimestampCatcher (emptyWorld demoClock) of
        (t, w1) \<Rightarrow> snd (timeAnnotatingCatcher_Add t (Some (ErrorString ''x'')) w1))"

definition nestedWorld :: world where
  "nestedWorld =
     (case NewTimestampCatcher (emptyWorld demoClock) of
        (t, w1) \<Rightarrow>
          (case NewBasicCatcher w1 of
             (sub, w2) \<Rightarrow> snd (timeAnnotatingCatcher_Add t (Some (CatcherPtr (BaseRef sub))) w2)))"






section \<open>Properties of the model\<close>

subsection \<open>The sliding window\<close>

lemma push_window: "push N (window N xs) e = window N (xs @ [e])"
  by (auto simp: push_def window_def lastN_def tl_drop Suc_diff_le simp flip: drop_Suc)

lemma foldl_push_window: "foldl (push N) (window N xs) es = window N (xs @ es)"
  by (induction es arbitrary: xs) (simp_all add: push_window)

lemma window_Nil [simp]: "window N [] = []"
  by (simp add: window_def lastN_def)

lemma foldl_push_empty: "foldl (push N) [] es = window N es"
  using foldl_push_window[of N "[]" es] by simp

lemma length_window:
  "length (window N xs) = (if 0 < N then min (length xs) (nat N) else length xs)"
  by (auto simp: window_def lastN_def)

lemma window_lastN:
  "window N xs = lastN (if 0 < N then min (length xs) (nat N) else length xs) xs"
  by (auto simp: window_def lastN_def min_def)



subsection \<open>Worlds\<close>

lemma withErrs_same: "bases w a = Some b \<Longrightarrow> errs b = xs \<Longrightarrow> withErrs a xs w = w"
  by (auto simp: withErrs_def map_upd_triv)

lemma withErrs_twice [simp]: "withErrs a ys (withErrs a xs w) = withErrs a ys w"
  by (auto simp: withErrs_def split: option.splits)

lemma bases_withErrs:
  "bases w a = Some b \<Longrightarrow> bases (withErrs a xs w) a = Some (b\<lparr>errs := xs\<rparr>)"
  by (simp add: withErrs_def)

lemma withTsErrs_same: "stampers w a = Some c \<Longrightarrow> tsErrs c = ps \<Longrightarrow> withTsErrs a ps w = w"
  by (auto simp: withTsErrs_def map_upd_triv)

lemma withTsErrs_twice [simp]: "withTsErrs a qs (withTsErrs a ps w) = withTsErrs a qs w"
  by (auto simp: withTsErrs_def split: option.splits)

lemma stampers_withTsErrs:
  "stampers w a = Some c \<Longrightarrow> stampers (withTsErrs a ps w) a = Some (c\<lparr>tsErrs := ps\<rparr>)"
  by (simp add: withTsErrs_def)

lemma ticked_simps [simp]:
  "ticks (ticked k w) = ticks w + k" "clock (ticked k w) = clock w"
  "stampers (ticked k w) = stampers w" "bases (ticked k w) = bases w"
  "ticked j (ticked k w) = ticked (k + j) w" "ticked 0 w = w"
  by (simp_all add: ticked_def add.assoc)

lemma withTsErrs_simps [simp]:
  "ticks (withTsErrs a ps w) = ticks w" "clock (withTsErrs a ps w) = clock w"
  "bases (withTsErrs a ps w) = bases w"
  by (simp_all add: withTsErrs_def split: option.splits)

lemma withErrs_simps [simp]:
  "ticks (withErrs a xs w) = ticks w" "clock (withErrs a xs w) = clock w"
  "stampers (withErrs a xs w) = stampers w"
  by (simp_all add: withErrs_def split: option.splits)

lemma ticked_withTsErrs: "ticked k (withTsErrs a ps w) = withTsErrs a ps (ticked k w)"
  by (simp add: ticked_def withTsErrs_def split: option.splits)

subsection \<open>Reading\<close>

lemma reading_free:
  assumes "mutexOf c w = Some m" "\<not> writer m" "stored c w = Some es"
  shows "reading c f w = (Inr (f es), w)"
  using assms
  by (cases c)
     (auto simp: reading_def withRLock_def bindM_def RLock_def deferred_def RUnlock_def
        mutexOf_def setMutex_def stored_def map_upd_triv split: option.splits)

lemma HasErrors_free:
  assumes "mutexOf c w = Some m" "\<not> writer m" "stored c w = Some es"
  shows "HasErrors c w = (Inr (es \<noteq> []), w)"
  unfolding HasErrors_def using reading_free[OF assms, of "\<lambda>es. 0 < length es"] by simp

lemma Errors_free:
  assumes "mutexOf c w = Some m" "\<not> writer m" "stored c w = Some es"
  shows "Errors c w = (Inr es, w)"
  unfolding Errors_def by (rule reading_free[OF assms])

lemma Len_free:
  assumes "mutexOf c w = Some m" "\<not> writer m" "stored c w = Some es"
  shows "Len c w = (Inr (int (length es)), w)"
  unfolding Len_def by (rule reading_free[OF assms])

lemma reading_blocked:
  assumes "mutexOf c w = Some m" "writer m"
  shows "reading c f w = (Inl Deadlock, w)"
  using assms
  by (auto simp: reading_def withRLock_def bindM_def RLock_def)

lemma String_free:
  assumes "mutexOf c w = Some m" "\<not> writer m"
  shows "String L nested c w =
         (joined (stringOutput L nested c w),
          if returns (joined (stringOutput L nested c w)) then w else snd (RLock c w))"
  using assms
  by (cases c)
     (auto simp: String_def withRLock_def bindM_def RLock_def deferred_def RUnlock_def returns_def
        mutexOf_def setMutex_def stringOutput_def map_upd_triv split: option.splits sum.splits)

lemma Resolve_free:
  assumes "mutexOf c w = Some m" "\<not> writer m" "stored c w = Some es"
  shows "Resolve L nested c w =
           (if es = [] then (Inr None, w)
            else (case joined (stringOutput L nested c w) of
                    Inl f \<Rightarrow> (Inl f, if isPanic f then w else snd (RLock c w))
                  | Inr s \<Rightarrow> (Inr (Some (ErrorString s)), w)))"
  using assms
  by (auto simp: Resolve_def HasErrors_def bindM_def reading_free returnM_def String_free returns_def
           split: sum.splits)

lemma Error_free:
  assumes "mutexOf c w = Some m" "\<not> writer m" "stored c w = Some es"
  shows "Error L nested c w =
           (if es = [] then (Inl NilDereference, w) else String L nested c w)"
  using assms
  by (auto simp: Error_def bindM_def Resolve_free failM_def String_free returns_def split: sum.splits)

subsection \<open>Adding leaf errors to a \<^verbatim>\<open>baseCatcher\<close>\<close>

lemma baseStore_push:
  assumes "bases w a = Some b"
  shows "baseStore a e w = (Inr (), withErrs a (push (maxSize b) (errs b) e) w)"
  using assms by (auto simp: baseStore_def push_def withErrs_def split: list.splits)

lemma Add_leaf:
  assumes "bases w a = Some b" "mutex b = freeMutex" "\<not> isCatcher e"
  shows "baseCatcher_Add n a (Some e) w = (Inr (), withErrs a (push (maxSize b) (errs b) e) w)"
proof -
  have sa: "\<And>ext w'. safeAdd ext a e w' = baseStore a e w'"
    using assms(3) by (cases e) (auto simp: safeAdd_def isCatcher_def)
  have eq: "b\<lparr>errs := xs, mutex := \<lparr>writer = False, readers = 0\<rparr>\<rparr> = b\<lparr>errs := xs\<rparr>" for xs
    using assms(2) by (cases b) (simp add: freeMutex_def)
  show ?thesis
    using assms(1,2)
    by (simp add: baseCatcher_Add_def withLock_def bindM_def Lock_def mutexOf_def freeMutex_def
        setMutex_def deferred_def sa baseStore_push Unlock_def withErrs_def eq)
qed

lemma Add_nil [simp]: "baseCatcher_Add n a None w = (Inr (), w)"
  by (simp add: baseCatcher_Add_def returnM_def)

lemma addAll_base:
  "\<forall>e \<in> set (nonNil es). \<not> isCatcher e \<Longrightarrow>
   bases w a = Some b \<Longrightarrow> mutex b = freeMutex \<Longrightarrow>
   forEach es (baseCatcher_Add n a) w =
     (Inr (), withErrs a (foldl (push (maxSize b)) (errs b) (nonNil es)) w)"
proof (induction es arbitrary: w b)
  case Nil
  then show ?case by (simp add: returnM_def withErrs_same)
next
  case (Cons e es)
  show ?case
  proof (cases e)
    case None
    with Cons show ?thesis by (simp add: bindM_def)
  next
    case (Some x)
    let ?b1 = "b\<lparr>errs := push (maxSize b) (errs b) x\<rparr>"
    let ?w1 = "withErrs a (push (maxSize b) (errs b) x) w"
    have leaf: "\<not> isCatcher x" and rest: "\<forall>e \<in> set (nonNil es). \<not> isCatcher e"
      using Cons.prems(1) Some by simp_all
    have step: "baseCatcher_Add n a (Some x) w = (Inr (), ?w1)"
      by (rule Add_leaf[OF Cons.prems(2,3) leaf])
    have b1: "bases ?w1 a = Some ?b1"
      by (rule bases_withErrs[OF Cons.prems(2)])
    have "forEach es (baseCatcher_Add n a) ?w1 =
          (Inr (), withErrs a (foldl (push (maxSize ?b1)) (errs ?b1) (nonNil es)) ?w1)"
      by (rule Cons.IH[OF rest b1]) (use Cons.prems(3) in simp)
    then show ?thesis
      using Some step by (simp add: bindM_def)
  qed
qed

subsection \<open>Adding to a \<^verbatim>\<open>timeAnnotatingCatcher\<close>\<close>

lemma stampStore_push:
  assumes "stampers w a = Some c"
  shows "stampStore a p w = (Inr (), withTsErrs a (push (tsMaxSize c) (tsErrs c) p) w)"
  using assms by (auto simp: stampStore_def push_def withTsErrs_def split: list.splits)

lemma newTimeStampError_eq:
  "newTimeStampError (Some e) w =
     (Inr (stampEntry False (clock w (ticks w)) e), ticked (if isTimestamp e then 0 else 1) w)"
  by (cases e)
     (simp_all add: newTimeStampError_def stampEntry_def isTimestamp_def returnM_def bindM_def
        now_def ticked_def)

lemma stampSafeAdd_eq:
  assumes "stampers w a = Some c"
  shows "stampSafeAdd a (Some e) w =
     (Inr (), withTsErrs a (push (tsMaxSize c) (tsErrs c) (stampEntry (extended c) (clock w (ticks w)) e))
                (ticked (if isTimestamp e then 0 else 1) w))"
  using assms
  by (cases e)
     (simp_all add: stampSafeAdd_def stampStore_push bindM_def newTimeStampError_eq isTimestamp_def
        getExtended_def setExtended_def stampEntry_def returnM_def)

lemma stampLock:
  assumes "stampers w a = Some c" "mu c = freeMutex"
  shows "Lock (StampRef a) w =
         (Inr (), w\<lparr>stampers := (stampers w)(a \<mapsto> c\<lparr>mu := \<lparr>writer = True, readers = 0\<rparr>\<rparr>)\<rparr>)"
  using assms by (simp add: Lock_def mutexOf_def freeMutex_def setMutex_def)

lemma stampUnlock:
  assumes "stampers w a = Some c" "mu c = freeMutex"
  shows "Unlock (StampRef a)
           (withTsErrs a ps
              (ticked k (w\<lparr>stampers := (stampers w)(a \<mapsto> c\<lparr>mu := \<lparr>writer = True, readers = 0\<rparr>\<rparr>)\<rparr>))) =
         withTsErrs a ps (ticked k w)"
proof -
  have eq: "c\<lparr>tsErrs := ps, mu := \<lparr>writer = False, readers = 0\<rparr>\<rparr> = c\<lparr>tsErrs := ps\<rparr>"
    using assms(2) by (cases c) (simp add: freeMutex_def)
  show ?thesis
    using assms(1)
    by (simp add: Unlock_def mutexOf_def setMutex_def withTsErrs_def ticked_def eq)
qed

lemma tsAdd_eq:
  assumes "stampers w a = Some c" "mu c = freeMutex"
  shows "timeAnnotatingCatcher_Add a (Some e) w =
     (Inr (), withTsErrs a (push (tsMaxSize c) (tsErrs c) (stampEntry (extended c) (clock w (ticks w)) e))
                (ticked (if isTimestamp e then 0 else 1) w))"
proof -
  let ?held = "\<lparr>writer = True, readers = 0\<rparr>"
  let ?wl = "w\<lparr>stampers := (stampers w)(a \<mapsto> c\<lparr>mu := ?held\<rparr>)\<rparr>"
  have s: "stampers ?wl a = Some (c\<lparr>mu := ?held\<rparr>)" by simp
  have t: "ticks ?wl = ticks w" "clock ?wl = clock w" by simp_all
  show ?thesis
    using stampUnlock[OF assms]
    by (simp add: timeAnnotatingCatcher_Add_def withLock_def bindM_def stampLock[OF assms]
        deferred_def stampSafeAdd_eq[OF s] t)
qed

lemma newStamps_simps [simp]:
  "newStamps [] = 0" "newStamps (e # es) = (if isTimestamp e then 0 else 1) + newStamps es"
  by (simp_all add: newStamps_def)

lemma tsAddAll:
  "stampers w a = Some c \<Longrightarrow> mu c = freeMutex \<Longrightarrow>
   forEach es (timeAnnotatingCatcher_Add a) w =
     (Inr (), withTsErrs a (foldl (push (tsMaxSize c)) (tsErrs c)
                 (stampAll (extended c) (clock w) (ticks w) (nonNil es)))
                (ticked (newStamps (nonNil es)) w))"
proof (induction es arbitrary: w c)
  case Nil
  then show ?case by (simp add: returnM_def withTsErrs_same)
next
  case (Cons e es)
  show ?case
  proof (cases e)
    case None
    with Cons show ?thesis
      by (simp add: bindM_def timeAnnotatingCatcher_Add_def returnM_def)
  next
    case (Some x)
    let ?p = "stampEntry (extended c) (clock w (ticks w)) x"
    let ?k = "if isTimestamp x then 0 else 1"
    let ?c1 = "c\<lparr>tsErrs := push (tsMaxSize c) (tsErrs c) ?p\<rparr>"
    let ?w1 = "withTsErrs a (push (tsMaxSize c) (tsErrs c) ?p) (ticked ?k w)"
    have step: "timeAnnotatingCatcher_Add a (Some x) w = (Inr (), ?w1)"
      by (rule tsAdd_eq[OF Cons.prems(1,2)])
    have c1: "stampers ?w1 a = Some ?c1"
      by (rule stampers_withTsErrs) (simp add: Cons.prems(1))
    have "forEach es (timeAnnotatingCatcher_Add a) ?w1 =
          (Inr (), withTsErrs a (foldl (push (tsMaxSize ?c1)) (tsErrs ?c1)
                 (stampAll (extended ?c1) (clock ?w1) (ticks ?w1) (nonNil es)))
                (ticked (newStamps (nonNil es)) ?w1))"
      by (rule Cons.IH[OF c1]) (use Cons.prems(2) in simp)
    then show ?thesis
      using Some step by (simp add: bindM_def ticked_withTsErrs add.commute)
  qed
qed


subsection \<open>What the reading methods return\<close>

lemma Len_base:
  assumes "bases w a = Some b" "\<not> writer (mutex b)"
  shows "Len (BaseRef a) w = (Inr (int (length (errs b))), w)"
  unfolding Len_def
  by (rule trans[OF reading_free[where m = "mutex b" and es = "map Some (errs b)"]])
     (use assms in \<open>simp_all add: mutexOf_def stored_def\<close>)

lemma Errors_base:
  assumes "bases w a = Some b" "\<not> writer (mutex b)"
  shows "Errors (BaseRef a) w = (Inr (map Some (errs b)), w)"
  unfolding Errors_def
  by (rule trans[OF reading_free[where m = "mutex b" and es = "map Some (errs b)"]])
     (use assms in \<open>simp_all add: mutexOf_def stored_def\<close>)

lemma Len_stamp:
  assumes "stampers w a = Some c" "\<not> writer (mu c)"
  shows "Len (StampRef a) w = (Inr (int (length (tsErrs c))), w)"
  unfolding Len_def
  by (rule trans[OF reading_free[where m = "mu c"
          and es = "map (\<lambda>p. Some (TimestampPtr p)) (tsErrs c)"]])
     (use assms in \<open>simp_all add: mutexOf_def stored_def\<close>)

lemma Errors_stamp:
  assumes "stampers w a = Some c" "\<not> writer (mu c)"
  shows "Errors (StampRef a) w = (Inr (map (\<lambda>p. Some (TimestampPtr p)) (tsErrs c)), w)"
  unfolding Errors_def
  by (rule trans[OF reading_free[where m = "mu c"
          and es = "map (\<lambda>p. Some (TimestampPtr p)) (tsErrs c)"]])
     (use assms in \<open>simp_all add: mutexOf_def stored_def\<close>)

lemma carries_stampEntry: "carries x e (stampEntry x t e)"
  by (cases e) (simp_all add: carries_def stampEntry_def)

lemma carries_stampAll: "list_all2 (carries x) es (stampAll x clk k es)"
  by (induction es arbitrary: k) (simp_all add: carries_stampEntry)

lemma length_stampAll [simp]: "length (stampAll x clk k es) = length es"
  by (induction es arbitrary: k) simp_all

lemma carries_lastN:
  "list_all2 (carries x) (lastN m es) (lastN m (stampAll x clk k es))"
  unfolding lastN_def using list_all2_dropI[OF carries_stampAll, where n = "length es - m"]
  by simp

lemma window_kept: "window N xs = lastN (kept N (length xs)) xs"
  by (simp add: window_lastN kept_def)


subsection \<open>The concrete worlds\<close>

lemma stampedWorld_eq:
  "stampedWorld =
     \<lparr>bases = (\<lambda>_. None),
      stampers = [0 \<mapsto> \<lparr>tsErrs = [Some (Some (ErrorString ''x''), 1700000000, False)],
                          tsMaxSize = 0, extended = False, mu = freeMutex\<rparr>],
      nextAddr = 1, clock = demoClock, ticks = 1\<rparr>"
proof -
  let ?w1 = "snd (NewTimestampCatcher (emptyWorld demoClock))"
  have s: "stampers ?w1 0 = Some \<lparr>tsErrs = [], tsMaxSize = 0, extended = False, mu = freeMutex\<rparr>"
    by (simp add: NewTimestampCatcher_def MakeTimestampCatcher_def makeStamper_def emptyWorld_def)
  show ?thesis
    using tsAdd_eq[OF s, of "ErrorString ''x''"]
    by (simp add: stampedWorld_def NewTimestampCatcher_def MakeTimestampCatcher_def makeStamper_def
        emptyWorld_def push_def stampEntry_def withTsErrs_def ticked_def demoClock_def isTimestamp_def
        split: prod.splits)
qed

lemma nestedWorld_eq:
  "nestedWorld =
     \<lparr>bases = [1 \<mapsto> \<lparr>errs = [], maxSize = 0, mutex = freeMutex, Stringer = basicCatcher\<rparr>],
      stampers = [0 \<mapsto> \<lparr>tsErrs = [Some (Some (CatcherPtr (BaseRef 1)), 1700000000, False)],
                          tsMaxSize = 0, extended = False, mu = freeMutex\<rparr>],
      nextAddr = 2, clock = demoClock, ticks = 1\<rparr>"
proof -
  let ?w2 = "snd (NewBasicCatcher (snd (NewTimestampCatcher (emptyWorld demoClock))))"
  have s: "stampers ?w2 0 = Some \<lparr>tsErrs = [], tsMaxSize = 0, extended = False, mu = freeMutex\<rparr>"
    by (simp add: NewTimestampCatcher_def MakeTimestampCatcher_def makeStamper_def emptyWorld_def
        NewBasicCatcher_def makeCatcher_def)
  show ?thesis
    using tsAdd_eq[OF s, of "CatcherPtr (BaseRef 1)"]
    by (simp add: nestedWorld_def NewTimestampCatcher_def MakeTimestampCatcher_def makeStamper_def
        NewBasicCatcher_def makeCatcher_def
        emptyWorld_def push_def stampEntry_def withTsErrs_def ticked_def demoClock_def isTimestamp_def
        split: prod.splits)
qed




section \<open>The claims\<close>

text \<open>
  C2. A collector built empty with capacity \<open>maxSize\<close> receives a sequence of \<^verbatim>\<open>Add\<close> calls
  holding \<open>k\<close> non-nil leaf errors and any number of nil errors. Every call returns;
  afterwards \<^verbatim>\<open>Len()\<close> is \<open>min k maxSize\<close> when \<open>maxSize\<close> is positive and \<open>k\<close> otherwise,
  and \<^verbatim>\<open>Errors()\<close> holds the last that many submitted errors, oldest first. For the
  timestamp collector \<^verbatim>\<open>Errors()\<close> holds them in the form it stores every error in: each
  entry is the submitted error itself when that is a \<^verbatim>\<open>*timestampError\<close>, and its
  timestamp wrapper otherwise.
\<close>

theorem eviction_keeps_last:
  assumes "bases w a = Some b" "mutex b = freeMutex" "errs b = []"
    and "\<forall>e \<in> set (nonNil es). \<not> isCatcher e"
    and "stampers w t = Some c" "mu c = freeMutex" "tsErrs c = []"
  shows "(\<exists>w'. forEach es (baseCatcher_Add n a) w = (Inr (), w') \<and>
            Len (BaseRef a) w' = (Inr (int (kept (maxSize b) (length (nonNil es)))), w') \<and>
            Errors (BaseRef a) w' =
              (Inr (map Some (lastN (kept (maxSize b) (length (nonNil es))) (nonNil es))), w')) \<and>
         (\<exists>w' ps. forEach es (timeAnnotatingCatcher_Add t) w = (Inr (), w') \<and>
            Len (StampRef t) w' = (Inr (int (kept (tsMaxSize c) (length (nonNil es)))), w') \<and>
            Errors (StampRef t) w' = (Inr (map (\<lambda>p. Some (TimestampPtr p)) ps), w') \<and>
            list_all2 (carries (extended c))
              (lastN (kept (tsMaxSize c) (length (nonNil es))) (nonNil es)) ps)"
proof (intro conjI)
  let ?xs = "window (maxSize b) (nonNil es)"
  let ?w' = "withErrs a ?xs w"
  have run: "forEach es (baseCatcher_Add n a) w = (Inr (), ?w')"
    using addAll_base[OF assms(4,1,2), of n] assms(3) by (simp add: foldl_push_empty)
  have b': "bases ?w' a = Some (b\<lparr>errs := ?xs\<rparr>)"
    by (rule bases_withErrs[OF assms(1)])
  have free: "\<not> writer (mutex (b\<lparr>errs := ?xs\<rparr>))"
    using assms(2) by (simp add: freeMutex_def)
  have len: "Len (BaseRef a) ?w' = (Inr (int (kept (maxSize b) (length (nonNil es)))), ?w')"
    using Len_base[OF b' free] by (simp add: length_window kept_def)
  have all: "Errors (BaseRef a) ?w' =
      (Inr (map Some (lastN (kept (maxSize b) (length (nonNil es))) (nonNil es))), ?w')"
    using Errors_base[OF b' free] by (simp add: window_kept)
  show "\<exists>w'. forEach es (baseCatcher_Add n a) w = (Inr (), w') \<and>
            Len (BaseRef a) w' = (Inr (int (kept (maxSize b) (length (nonNil es)))), w') \<and>
            Errors (BaseRef a) w' =
              (Inr (map Some (lastN (kept (maxSize b) (length (nonNil es))) (nonNil es))), w')"
    using run len all by blast
next
  let ?all = "stampAll (extended c) (clock w) (ticks w) (nonNil es)"
  let ?ps = "window (tsMaxSize c) ?all"
  let ?w' = "withTsErrs t ?ps (ticked (newStamps (nonNil es)) w)"
  have run: "forEach es (timeAnnotatingCatcher_Add t) w = (Inr (), ?w')"
    using tsAddAll[OF assms(5,6), of es] assms(7) by (simp add: foldl_push_empty)
  have c': "stampers ?w' t = Some (c\<lparr>tsErrs := ?ps\<rparr>)"
    by (rule stampers_withTsErrs) (simp add: assms(5))
  have free: "\<not> writer (mu (c\<lparr>tsErrs := ?ps\<rparr>))"
    using assms(6) by (simp add: freeMutex_def)
  have len: "Len (StampRef t) ?w' = (Inr (int (kept (tsMaxSize c) (length (nonNil es)))), ?w')"
    using Len_stamp[OF c' free] by (simp add: length_window kept_def)
  have all: "Errors (StampRef t) ?w' = (Inr (map (\<lambda>p. Some (TimestampPtr p)) ?ps), ?w')"
    using Errors_stamp[OF c' free] by simp
  have car: "list_all2 (carries (extended c))
      (lastN (kept (tsMaxSize c) (length (nonNil es))) (nonNil es)) ?ps"
    using carries_lastN[of "extended c" "kept (tsMaxSize c) (length (nonNil es))" "nonNil es"
        "clock w" "ticks w"]
    by (simp add: window_kept)
  show "\<exists>w' ps. forEach es (timeAnnotatingCatcher_Add t) w = (Inr (), w') \<and>
            Len (StampRef t) w' = (Inr (int (kept (tsMaxSize c) (length (nonNil es)))), w') \<and>
            Errors (StampRef t) w' = (Inr (map (\<lambda>p. Some (TimestampPtr p)) ps), w') \<and>
            list_all2 (carries (extended c))
              (lastN (kept (tsMaxSize c) (length (nonNil es))) (nonNil es)) ps"
    using run len all car by blast
qed

lemma demoWorld_base: "bases demoWorld 0 = Some demoBase"
  by (simp add: demoWorld_def MakeTimestampCatcher_def makeStamper_def MakeBasicCatcher_def
      makeCatcher_def emptyWorld_def demoBase_def)

lemma demoWorld_stamper: "stampers demoWorld 1 = Some demoStamper"
  by (simp add: demoWorld_def MakeTimestampCatcher_def makeStamper_def MakeBasicCatcher_def
      makeCatcher_def emptyWorld_def demoStamper_def)

theorem eviction_keeps_last_witness:
  "(\<exists>w'. forEach demoErrors (baseCatcher_Add 0 0) demoWorld = (Inr (), w') \<and>
         Len (BaseRef 0) w' = (Inr 2, w') \<and>
         Errors (BaseRef 0) w' = (Inr [Some (ErrorString ''b''), Some (ErrorString ''c'')], w')) \<and>
   (\<exists>w' ps. forEach demoErrors (timeAnnotatingCatcher_Add 1) demoWorld = (Inr (), w') \<and>
         Len (StampRef 1) w' = (Inr 2, w') \<and>
         Errors (StampRef 1) w' = (Inr (map (\<lambda>p. Some (TimestampPtr p)) ps), w') \<and>
         list_all2 (carries False) [ErrorString ''b'', ErrorString ''c''] ps)"
proof -
  have h2: "mutex demoBase = freeMutex" and h3: "errs demoBase = []"
    by (simp_all add: demoBase_def)
  have h4: "\<forall>e \<in> set (nonNil demoErrors). \<not> isCatcher e"
    by (simp add: demoErrors_def isCatcher_def)
  have h6: "mu demoStamper = freeMutex" and h7: "tsErrs demoStamper = []"
    by (simp_all add: demoStamper_def)
  show ?thesis
    using eviction_keeps_last[OF demoWorld_base h2 h3 h4 demoWorld_stamper h6 h7, of 0]
    by (simp add: kept_def lastN_def demoErrors_def demoBase_def demoStamper_def)
qed


subsection \<open>Adding a collector to a \<^verbatim>\<open>baseCatcher\<close>\<close>

text \<open>
  \<^verbatim>\<open>Add\<close> holds the collector's mutex when \<^verbatim>\<open>safeAdd\<close> calls \<^verbatim>\<open>c.Extend\<close>, and
  \<^verbatim>\<open>Extend\<close> locks the same mutex: with a populated collector as argument the call
  never returns, and the mutex stays held.
\<close>

lemma baseLock:
  assumes "bases w a = Some b" "mutex b = freeMutex"
  shows "Lock (BaseRef a) w =
         (Inr (), w\<lparr>bases := (bases w)(a \<mapsto> b\<lparr>mutex := \<lparr>writer = True, readers = 0\<rparr>\<rparr>)\<rparr>)"
  using assms by (simp add: Lock_def mutexOf_def freeMutex_def setMutex_def)

lemma Lock_held:
  assumes "bases w a = Some b" "writer (mutex b)"
  shows "Lock (BaseRef a) w = (Inl Deadlock, w)"
  using assms by (simp add: Lock_def mutexOf_def)

lemma extendBody_held:
  assumes "bases w a = Some b" "writer (mutex b)" "es \<noteq> []"
  shows "extendBody ext a es w = (Inl Deadlock, w)"
  using assms by (simp add: extendBody_def withLock_def bindM_def Lock_held)

lemma flatten_deadlock:
  assumes "bases w a = Some b" "mutex b = freeMutex"
    and "c \<noteq> BaseRef a" "mutexOf c w = Some m" "\<not> writer m" "stored c w = Some es" "es \<noteq> []"
  shows "baseCatcher_Add (Suc n) a (Some (CatcherPtr c)) w =
         (Inl Deadlock, w\<lparr>bases := (bases w)(a \<mapsto> b\<lparr>mutex := \<lparr>writer = True, readers = 0\<rparr>\<rparr>)\<rparr>)"
proof -
  let ?wl = "w\<lparr>bases := (bases w)(a \<mapsto> b\<lparr>mutex := \<lparr>writer = True, readers = 0\<rparr>\<rparr>)\<rparr>"
  have m: "mutexOf c ?wl = Some m" and s: "stored c ?wl = Some es"
    using assms(3,4,6) by (cases c; simp add: mutexOf_def stored_def)+
  have h: "HasErrors c ?wl = (Inr True, ?wl)"
    using HasErrors_free[OF m assms(5) s] assms(7) by simp
  have e: "Errors c ?wl = (Inr es, ?wl)"
    by (rule Errors_free[OF m assms(5) s])
  have b: "bases ?wl a = Some (b\<lparr>mutex := \<lparr>writer = True, readers = 0\<rparr>\<rparr>)" by simp
  have x: "extendBody (baseCatcher_Extend n) a es ?wl = (Inl Deadlock, ?wl)"
    by (rule extendBody_held[OF b _ assms(7)]) simp
  show ?thesis
    by (simp add: baseCatcher_Add_def withLock_def bindM_def baseLock[OF assms(1,2)] deferred_def
        safeAdd_def h e x isPanic_def)
qed

lemma flatten_self_deadlock:
  assumes "bases w a = Some b" "mutex b = freeMutex"
  shows "baseCatcher_Add n a (Some (CatcherPtr (BaseRef a))) w =
         (Inl Deadlock, w\<lparr>bases := (bases w)(a \<mapsto> b\<lparr>mutex := \<lparr>writer = True, readers = 0\<rparr>\<rparr>)\<rparr>)"
proof -
  let ?wl = "w\<lparr>bases := (bases w)(a \<mapsto> b\<lparr>mutex := \<lparr>writer = True, readers = 0\<rparr>\<rparr>)\<rparr>"
  have h: "HasErrors (BaseRef a) ?wl = (Inl Deadlock, ?wl)"
    unfolding HasErrors_def
    by (rule reading_blocked[where m = "\<lparr>writer = True, readers = 0\<rparr>"])
       (simp_all add: mutexOf_def)
  show ?thesis
    by (simp add: baseCatcher_Add_def withLock_def bindM_def baseLock[OF assms(1,2)] deferred_def
        safeAdd_def h isPanic_def)
qed

lemma flattenWorld_bases:
  "bases flattenWorld 0 = Some \<lparr>errs = [], maxSize = 0, mutex = freeMutex, Stringer = basicCatcher\<rparr>"
  "bases flattenWorld (Suc 0) =
     Some \<lparr>errs = [ErrorString ''x''], maxSize = 0, mutex = freeMutex, Stringer = basicCatcher\<rparr>"
proof -
  let ?w1 = "snd (NewBasicCatcher (emptyWorld demoClock))"
  let ?w2 = "snd (NewBasicCatcher ?w1)"
  let ?b = "\<lparr>errs = [], maxSize = 0, mutex = freeMutex, Stringer = basicCatcher\<rparr>"
  have b1: "bases ?w2 (Suc 0) = Some ?b" and b0: "bases ?w2 0 = Some ?b"
    by (simp_all add: NewBasicCatcher_def makeCatcher_def emptyWorld_def)
  have add: "baseCatcher_Add 0 (Suc 0) (Some (ErrorString ''x'')) ?w2 =
               (Inr (), withErrs (Suc 0) [ErrorString ''x''] ?w2)"
    using Add_leaf[OF b1, of "ErrorString ''x''" 0] by (simp add: isCatcher_def push_def)
  have fw: "flattenWorld = withErrs (Suc 0) [ErrorString ''x''] ?w2"
    using add by (simp add: flattenWorld_def NewBasicCatcher_def makeCatcher_def emptyWorld_def
        split: prod.splits)
  show "bases flattenWorld 0 = Some ?b"
    unfolding fw using b0 b1 by (simp add: withErrs_def)
  show "bases flattenWorld (Suc 0) =
     Some \<lparr>errs = [ErrorString ''x''], maxSize = 0, mutex = freeMutex, Stringer = basicCatcher\<rparr>"
    unfolding fw using bases_withErrs[OF b1, of "[ErrorString ''x'']"] by simp
qed

text \<open>
  C1 (the code at the failing input). The collector at address 1 holds one error
  (\<^verbatim>\<open>Len()\<close> is 1). Adding it to the empty collector at address 0, through \<^verbatim>\<open>Add\<close> or
  through \<^verbatim>\<open>Extend\<close>, never returns, whatever the depth of calls allowed; nothing has
  been merged into the collector at address 0, whose mutex stays held.
\<close>

theorem flatten_never_returns:
  "fst (Len (BaseRef 1) flattenWorld) = Inr 1 \<and>
   (\<forall>n. fst (baseCatcher_Add (Suc n) 0 (Some (CatcherPtr (BaseRef 1))) flattenWorld) = Inl Deadlock \<and>
        stored (BaseRef 0)
          (snd (baseCatcher_Add (Suc n) 0 (Some (CatcherPtr (BaseRef 1))) flattenWorld)) = Some [] \<and>
        mutexOf (BaseRef 0)
          (snd (baseCatcher_Add (Suc n) 0 (Some (CatcherPtr (BaseRef 1))) flattenWorld)) =
          Some \<lparr>writer = True, readers = 0\<rparr> \<and>
        fst (baseCatcher_Extend (Suc (Suc n)) 0 [Some (CatcherPtr (BaseRef 1))] flattenWorld) =
          Inl Deadlock)"
proof -
  let ?b0 = "\<lparr>errs = [], maxSize = 0, mutex = freeMutex, Stringer = basicCatcher\<rparr>"
  let ?b1 = "\<lparr>errs = [ErrorString ''x''], maxSize = 0, mutex = freeMutex, Stringer = basicCatcher\<rparr>"
  have len: "fst (Len (BaseRef 1) flattenWorld) = Inr 1"
    using Len_base[OF flattenWorld_bases(2)] by (simp add: freeMutex_def)
  have m: "mutexOf (BaseRef (Suc 0)) flattenWorld = Some freeMutex"
    and s: "stored (BaseRef (Suc 0)) flattenWorld = Some [Some (ErrorString ''x'')]"
    by (simp_all add: mutexOf_def stored_def flattenWorld_bases)
  have add: "baseCatcher_Add (Suc n) 0 (Some (CatcherPtr (BaseRef (Suc 0)))) flattenWorld =
        (Inl Deadlock,
         flattenWorld\<lparr>bases := (bases flattenWorld)(0 \<mapsto> ?b0\<lparr>mutex := \<lparr>writer = True, readers = 0\<rparr>\<rparr>)\<rparr>)"
    for n
    by (rule flatten_deadlock[OF flattenWorld_bases(1) _ _ m _ s]) (simp_all add: freeMutex_def)
  have ext: "fst (baseCatcher_Extend (Suc (Suc n)) 0 [Some (CatcherPtr (BaseRef (Suc 0)))] flattenWorld) =
        Inl Deadlock" for n
  proof -
    let ?h0 = "\<lparr>errs = [], maxSize = 0, mutex = \<lparr>writer = True, readers = 0\<rparr>,
                Stringer = basicCatcher\<rparr>"
    let ?wl = "flattenWorld\<lparr>bases := (bases flattenWorld)(0 \<mapsto> ?h0)\<rparr>"
    have m': "mutexOf (BaseRef (Suc 0)) ?wl = Some freeMutex"
      and s': "stored (BaseRef (Suc 0)) ?wl = Some [Some (ErrorString ''x'')]"
      by (simp_all add: mutexOf_def stored_def flattenWorld_bases)
    have h: "HasErrors (BaseRef (Suc 0)) ?wl = (Inr True, ?wl)"
      using HasErrors_free[OF m' _ s'] by (simp add: freeMutex_def)
    have e: "Errors (BaseRef (Suc 0)) ?wl = (Inr [Some (ErrorString ''x'')], ?wl)"
      using Errors_free[OF m' _ s'] by (simp add: freeMutex_def)
    have b: "bases ?wl 0 = Some ?h0" by simp
    have x: "extendBody (baseCatcher_Extend n) 0 [Some (ErrorString ''x'')] ?wl = (Inl Deadlock, ?wl)"
      by (rule extendBody_held[OF b]) simp_all
    have step1: "baseCatcher_Extend (Suc (Suc n)) 0 es flattenWorld =
          extendBody (extendBody (baseCatcher_Extend n)) 0 es flattenWorld" for es
      by simp
    have step2: "extendBody E 0 [Some (CatcherPtr (BaseRef (Suc 0)))] flattenWorld =
          withLock (BaseRef 0)
            (bindM (safeAdd E 0 (CatcherPtr (BaseRef (Suc 0)))) (\<lambda>_. returnM ())) flattenWorld" for E
      by (simp add: extendBody_def)
    show ?thesis
      apply (subst step1)
      apply (subst step2)
      apply (simp add: withLock_def bindM_def baseLock[OF flattenWorld_bases(1)]
          deferred_def safeAdd_def h e x isPanic_def)
      done
  qed
  show ?thesis
    using len add ext by (simp add: stored_def mutexOf_def)
qed


subsection \<open>Wrapping and finding timestamps\<close>

lemma wrap_timestamped_same:
  "WrapErrorTime (Some (TimestampPtr p)) w = (Inr (Some (TimestampPtr p)), w)"
  by (simp add: WrapErrorTime_def newTimeStampError_def bindM_def returnM_def)

lemma wrap_fresh:
  "\<not> isTimestamp e \<Longrightarrow>
   WrapErrorTime (Some e) w =
     (Inr (Some (TimestampPtr (Some (Some e, clock w (ticks w), False)))), ticked 1 w)"
  by (simp add: WrapErrorTime_def newTimeStampError_eq bindM_def returnM_def stampEntry_def
      isTimestamp_def split: error.splits)

lemma timeFinderLoop_chain:
  "timeFinderLoop err =
     (case firstStamp (chain err) of None \<Rightarrow> (zeroTime, False) | Some t \<Rightarrow> (t, True))"
  by (induction err rule: timeFinderLoop.induct) simp_all

lemma ErrorTimeFinder_chain:
  "ErrorTimeFinder err =
     (case firstStamp (chain err) of None \<Rightarrow> (zeroTime, False) | Some t \<Rightarrow> (t, True))"
proof (cases err)
  case None
  then show ?thesis by (simp add: ErrorTimeFinder_def)
next
  case (Some e)
  show ?thesis
  proof (cases e)
    case (TimestampPtr p)
    with Some show ?thesis
      by (cases p) (auto simp: ErrorTimeFinder_def)
  qed (use Some in \<open>simp_all add: ErrorTimeFinder_def timeFinderLoop_chain\<close>)
qed

text \<open>
  C5 (the code at the failing input). \<^verbatim>\<open>newTimeStampError(nil)\<close> is the nil pointer, and
  \<^verbatim>\<open>WrapErrorTime(nil)\<close> returns that pointer as an \<^verbatim>\<open>error\<close>: an interface value that
  holds a nil \<^verbatim>\<open>*timestampError\<close> and is not the nil interface, whose \<^verbatim>\<open>Error\<close> method
  panics, and which a \<^verbatim>\<open>baseCatcher\<close> stores when it is added.
\<close>

theorem wrap_nil_is_not_nil:
  "newTimeStampError None w = (Inr None, w) \<and>
   WrapErrorTime None w = (Inr (Some (TimestampPtr None)), w) \<and>
   fst (WrapErrorTime None w) \<noteq> Inr None \<and>
   errorMethod L K (TimestampPtr None) = Inl NilDereference \<and>
   fst (Len (BaseRef 0)
          (snd (baseCatcher_Add n 0 (Some (TimestampPtr None)) demoWorld))) = Inr 1"
proof -
  have add: "baseCatcher_Add n 0 (Some (TimestampPtr None)) demoWorld =
             (Inr (), withErrs 0 [TimestampPtr None] demoWorld)"
    using Add_leaf[OF demoWorld_base, of "TimestampPtr None" n]
    by (simp add: demoBase_def isCatcher_def push_def)
  have "bases (withErrs 0 [TimestampPtr None] demoWorld) 0 = Some (demoBase\<lparr>errs := [TimestampPtr None]\<rparr>)"
    by (rule bases_withErrs[OF demoWorld_base])
  from Len_base[OF this] have "fst (Len (BaseRef 0) (withErrs 0 [TimestampPtr None] demoWorld)) = Inr 1"
    by (simp add: demoBase_def freeMutex_def)
  then show ?thesis
    by (simp add: add WrapErrorTime_def newTimeStampError_def bindM_def returnM_def)
qed

text \<open>
  C6. \<^verbatim>\<open>ErrorTimeFinder(err)\<close> follows \<open>err\<close> and then its cause/unwrap chain and returns
  the instant of the first timestamped node with \<open>True\<close>, or the zero instant with \<open>False\<close>
  when the chain holds none; so it does for the nil error, for a plain error and for
  \<^verbatim>\<open>WrapErrorTime(nil)\<close>. For an error \<open>e\<close> that is not a nil timestamp pointer (the value
  \<^verbatim>\<open>WrapErrorTime(nil)\<close> yields), \<^verbatim>\<open>ErrorTimeFinder(WrapErrorTime(e))\<close> is \<open>(t, True)\<close>,
  \<open>t\<close> being the instant \<open>e\<close> already carries or else the clock's reading, which is not the
  zero instant as long as the clock never reads zero.
\<close>

theorem find_timestamp:
  "ErrorTimeFinder err =
     (case firstStamp (chain err) of None \<Rightarrow> (zeroTime, False) | Some t \<Rightarrow> (t, True)) \<and>
   ErrorTimeFinder None = (zeroTime, False) \<and>
   ErrorTimeFinder (Some (ErrorString s)) = (zeroTime, False) \<and>
   (\<exists>r w'. WrapErrorTime None w = (Inr r, w') \<and> ErrorTimeFinder r = (zeroTime, False)) \<and>
   (e \<noteq> TimestampPtr None \<and> clock w (ticks w) \<noteq> zeroTime \<and> stampOf e \<noteq> Some zeroTime \<longrightarrow>
     (\<exists>r w' t. WrapErrorTime (Some e) w = (Inr r, w') \<and> ErrorTimeFinder r = (t, True) \<and>
        t = (case stampOf e of Some t0 \<Rightarrow> t0 | None \<Rightarrow> clock w (ticks w)) \<and> t \<noteq> zeroTime))"
proof (intro conjI impI)
  show "ErrorTimeFinder err =
     (case firstStamp (chain err) of None \<Rightarrow> (zeroTime, False) | Some t \<Rightarrow> (t, True))"
    by (rule ErrorTimeFinder_chain)
  show "ErrorTimeFinder None = (zeroTime, False)"
    by (simp add: ErrorTimeFinder_def)
  show "ErrorTimeFinder (Some (ErrorString s)) = (zeroTime, False)"
    by (simp add: ErrorTimeFinder_def)
  show "\<exists>r w'. WrapErrorTime None w = (Inr r, w') \<and> ErrorTimeFinder r = (zeroTime, False)"
    by (simp add: WrapErrorTime_def newTimeStampError_def bindM_def returnM_def ErrorTimeFinder_def)
next
  assume h: "e \<noteq> TimestampPtr None \<and> clock w (ticks w) \<noteq> zeroTime \<and> stampOf e \<noteq> Some zeroTime"
  show "\<exists>r w' t. WrapErrorTime (Some e) w = (Inr r, w') \<and> ErrorTimeFinder r = (t, True) \<and>
        t = (case stampOf e of Some t0 \<Rightarrow> t0 | None \<Rightarrow> clock w (ticks w)) \<and> t \<noteq> zeroTime"
  proof (cases "isTimestamp e")
    case True
    then obtain ie t0 x where e: "e = TimestampPtr (Some (ie, t0, x))"
      using h by (cases e) (auto simp: isTimestamp_def)
    with h show ?thesis
      by (simp add: wrap_timestamped_same ErrorTimeFinder_def)
  next
    case False
    then have "stampOf e = None"
      by (cases e) (simp_all add: isTimestamp_def)
    with h show ?thesis
      by (simp add: wrap_fresh[OF False] ErrorTimeFinder_def)
  qed
qed

theorem find_timestamp_witness:
  "ErrorString ''hello'' \<noteq> TimestampPtr None \<and>
   clock (emptyWorld demoClock) (ticks (emptyWorld demoClock)) \<noteq> zeroTime \<and>
   stampOf (ErrorString ''hello'') \<noteq> Some zeroTime \<and>
   (\<exists>r w'. WrapErrorTime (Some (ErrorString ''hello'')) (emptyWorld demoClock) = (Inr r, w') \<and>
      ErrorTimeFinder r = (1700000000, True)) \<and>
   ErrorTimeFinder (Some (Unwrapper ''wrap: hello''
      (Some (TimestampPtr (Some (Some (ErrorString ''hello''), 42, False)))))) = (42, True)"
proof -
  have h: "ErrorString ''hello'' \<noteq> TimestampPtr None \<and>
     clock (emptyWorld demoClock) (ticks (emptyWorld demoClock)) \<noteq> zeroTime \<and>
     stampOf (ErrorString ''hello'') \<noteq> Some zeroTime"
    by (simp add: emptyWorld_def demoClock_def)
  have c: "clock (emptyWorld demoClock) (ticks (emptyWorld demoClock)) = 1700000000"
    by (simp add: emptyWorld_def demoClock_def)
  show ?thesis
    using h c
      find_timestamp[of "Some (Unwrapper ''wrap: hello''
          (Some (TimestampPtr (Some (Some (ErrorString ''hello''), 42, False)))))"
        "''hello''" "emptyWorld demoClock" "ErrorString ''hello''"]
    by auto
qed


subsection \<open>Resolving\<close>

text \<open>
  C10. On a collector that stores no errors \<^verbatim>\<open>Resolve()\<close> returns nil and \<^verbatim>\<open>Error()\<close>,
  which calls \<^verbatim>\<open>Error\<close> on that result, panics with a nil dereference. On a collector
  that stores errors (\<^verbatim>\<open>HasErrors()\<close> is true) \<^verbatim>\<open>Error()\<close> is the text of the error
  that \<^verbatim>\<open>Resolve()\<close> returns, which is what \<^verbatim>\<open>String()\<close> returns.
\<close>

theorem error_faults_when_empty:
  assumes "mutexOf c w = Some m" "\<not> writer m" "stored c w = Some es"
  shows "(es = [] \<longrightarrow>
            HasErrors c w = (Inr False, w) \<and>
            Resolve L nested c w = (Inr None, w) \<and>
            Error L nested c w = (Inl NilDereference, w)) \<and>
         (es \<noteq> [] \<longrightarrow>
            HasErrors c w = (Inr True, w) \<and>
            Error L nested c w = String L nested c w \<and>
            Resolve L nested c w =
              (case String L nested c w of
                 (Inl f, w') \<Rightarrow> (Inl f, w')
               | (Inr s, w') \<Rightarrow> (Inr (Some (ErrorString s)), w')))"
  using assms
  by (auto simp: HasErrors_free Resolve_free Error_free String_free returns_def split: sum.splits)

theorem error_faults_when_empty_witness:
  "Error demoLib (nestedError demoLib 0) (BaseRef 0) demoWorld = (Inl NilDereference, demoWorld) \<and>
   Resolve demoLib (nestedError demoLib 0) (BaseRef 0) demoWorld = (Inr None, demoWorld) \<and>
   Error demoLib (nestedError demoLib 0) (StampRef 0) stampedWorld = (Inr ''x'', stampedWorld) \<and>
   HasErrors (StampRef 0) stampedWorld = (Inr True, stampedWorld)"
proof -
  have m0: "mutexOf (BaseRef 0) demoWorld = Some freeMutex"
    and s0: "stored (BaseRef 0) demoWorld = Some []"
    by (simp_all add: mutexOf_def stored_def demoWorld_base demoBase_def)
  have m1: "mutexOf (StampRef 0) stampedWorld = Some freeMutex"
    and s1: "stored (StampRef 0) stampedWorld =
               Some [Some (TimestampPtr (Some (Some (ErrorString ''x''), 1700000000, False)))]"
    by (simp_all add: mutexOf_def stored_def stampedWorld_eq)
  have f: "\<not> writer freeMutex" by (simp add: freeMutex_def)
  have str: "String demoLib (nestedError demoLib 0) (StampRef 0) stampedWorld = (Inr ''x'', stampedWorld)"
    using String_free[OF m1 f, of demoLib "nestedError demoLib 0"]
    by (simp add: stringOutput_def stampedWorld_eq renderStamp_def joined_def returns_def)
  show ?thesis
    using error_faults_when_empty[OF m0 f s0, of demoLib "nestedError demoLib 0"]
      error_faults_when_empty[OF m1 f s1, of demoLib "nestedError demoLib 0"] str
    by simp
qed

text \<open>
  C4 (the code at the failing input). The timestamp collector holds the wrapper of
  \<^verbatim>\<open>errors.New("x")\<close> with the instant of its capture, and the wrapper's own \<^verbatim>\<open>Error()\<close>
  text starts with that instant; \<^verbatim>\<open>String()\<close> and \<^verbatim>\<open>Resolve()\<close> of the collector give
  the text \<^verbatim>\<open>x\<close>, without it, whatever the library prints for an instant. With
  either value of the \<^verbatim>\<open>extended\<close> flag, what the collector's \<^verbatim>\<open>String()\<close> makes of the
  wrapper of a plain error is the plain error's text alone.
\<close>

theorem timestamp_missing_from_text:
  "stored (StampRef 0) stampedWorld =
     Some [Some (TimestampPtr (Some (Some (ErrorString ''x''), 1700000000, False)))] \<and>
   errorMethod L K (TimestampPtr (Some (Some (ErrorString ''x''), 1700000000, False))) =
     Inr (''['' @ rfc3339 L 1700000000 @ ''], x'') \<and>
   String L nested (StampRef 0) stampedWorld = (Inr ''x'', stampedWorld) \<and>
   Resolve L nested (StampRef 0) stampedWorld = (Inr (Some (ErrorString ''x'')), stampedWorld) \<and>
   renderStamp L K (Some (Some (ErrorString s), t, x)) = Inr s"
proof -
  have m1: "mutexOf (StampRef 0) stampedWorld = Some freeMutex"
    and s1: "stored (StampRef 0) stampedWorld =
               Some [Some (TimestampPtr (Some (Some (ErrorString ''x''), 1700000000, False)))]"
    by (simp_all add: mutexOf_def stored_def stampedWorld_eq)
  have f: "\<not> writer freeMutex" by (simp add: freeMutex_def)
  have r: "joined (stringOutput L nested (StampRef 0) stampedWorld) = Inr ''x''"
    by (simp add: stringOutput_def stampedWorld_eq renderStamp_def joined_def)
  show ?thesis
    using String_free[OF m1 f, of L nested] Resolve_free[OF m1 f s1, of L nested] s1 r
    by (simp add: returns_def renderStamp_def)
qed

text \<open>
  C3 (the code at the failing input). \<open>nestedWorld\<close> is the world after
  \<^verbatim>\<open>ts := NewTimestampCatcher(); sub := NewBasicCatcher(); ts.Add(sub)\<close>. The timestamp
  collector \<^verbatim>\<open>ts\<close> stores one error, the wrapper of the collector \<^verbatim>\<open>sub\<close>, which stores
  none: \<^verbatim>\<open>ts.Len()\<close> is 1 and \<^verbatim>\<open>ts.HasErrors()\<close> is true. \<^verbatim>\<open>ts.String()\<close> and
  \<^verbatim>\<open>ts.Resolve()\<close> do not return a text or an aggregate error: they panic with the nil
  dereference of \<^verbatim>\<open>sub.Error()\<close>, whatever the library prints and however deep the calls
  of \<^verbatim>\<open>Error()\<close> may go. The deferred unlocks run, so the world is left as it was.
\<close>

theorem resolve_panics:
  "Len (BaseRef 1) nestedWorld = (Inr 0, nestedWorld) \<and>
   Len (StampRef 0) nestedWorld = (Inr 1, nestedWorld) \<and>
   HasErrors (StampRef 0) nestedWorld = (Inr True, nestedWorld) \<and>
   stored (StampRef 0) nestedWorld =
     Some [Some (TimestampPtr (Some (Some (CatcherPtr (BaseRef 1)), 1700000000, False)))] \<and>
   String L (nestedError L (Suc n)) (StampRef 0) nestedWorld = (Inl NilDereference, nestedWorld) \<and>
   Resolve L (nestedError L (Suc n)) (StampRef 0) nestedWorld = (Inl NilDereference, nestedWorld)"
proof -
  have m: "mutexOf (StampRef 0) nestedWorld = Some freeMutex"
    and s: "stored (StampRef 0) nestedWorld =
             Some [Some (TimestampPtr (Some (Some (CatcherPtr (BaseRef 1)), 1700000000, False)))]"
    and m1: "mutexOf (BaseRef 1) nestedWorld = Some freeMutex"
    and s1: "stored (BaseRef 1) nestedWorld = Some []"
    by (simp_all add: mutexOf_def stored_def nestedWorld_eq)
  have f: "\<not> writer freeMutex" by (simp add: freeMutex_def)
  let ?wl = "snd (RLock (StampRef 0) nestedWorld)"
  have mb: "mutexOf (BaseRef 1) ?wl = Some freeMutex" and sb: "stored (BaseRef 1) ?wl = Some []"
    by (simp_all add: mutexOf_def stored_def nestedWorld_eq RLock_def setMutex_def freeMutex_def)
  have inner: "nestedError L (Suc n) ?wl (BaseRef 1) = Inl NilDereference"
    using Error_free[OF mb f sb, of L "nestedError L n"] by simp
  have r: "joined (stringOutput L (nestedError L (Suc n)) (StampRef 0) nestedWorld) = Inl NilDereference"
    using inner by (simp add: stringOutput_def nestedWorld_eq renderStamp_def joined_def)
  have str: "String L (nestedError L (Suc n)) (StampRef 0) nestedWorld = (Inl NilDereference, nestedWorld)"
    using String_free[OF m f, of L "nestedError L (Suc n)"] r by (simp add: returns_def isPanic_def)
  have res: "Resolve L (nestedError L (Suc n)) (StampRef 0) nestedWorld = (Inl NilDereference, nestedWorld)"
    using Resolve_free[OF m f s, of L "nestedError L (Suc n)"] r by (simp add: isPanic_def)
  show ?thesis
    using Len_free[OF m1 f s1] Len_free[OF m f s] HasErrors_free[OF m f s] s str res
    by simp
qed


subsection \<open>Collectors added to a \<^verbatim>\<open>timeAnnotatingCatcher\<close>\<close>






text \<open>
  The nil wrapper, which \<^verbatim>\<open>WrapErrorTime(nil)\<close> returns, is an argument that is not nil and
  holds no error. \<^verbatim>\<open>Add\<close> stores the nil pointer as an entry; \<^verbatim>\<open>Extend\<close> panics when it
  sets the flag through it, stores nothing and releases the lock.
\<close>

lemma stamper_nil_wrapper:
  assumes "stampers w a = Some c" "mu c = freeMutex"
  shows "timeAnnotatingCatcher_Add a (Some (TimestampPtr None)) w =
           (Inr (), withTsErrs a (push (tsMaxSize c) (tsErrs c) None) w)"
    and "timeAnnotatingCatcher_Extend a [Some (TimestampPtr None)] w = (Inl NilDereference, w)"
proof -
  show "timeAnnotatingCatcher_Add a (Some (TimestampPtr None)) w =
           (Inr (), withTsErrs a (push (tsMaxSize c) (tsErrs c) None) w)"
    using tsAdd_eq[OF assms, of "TimestampPtr None"] by (simp add: isTimestamp_def stampEntry_def)
  have eq: "c\<lparr>mu := \<lparr>writer = False, readers = 0\<rparr>\<rparr> = c"
    using assms(2) by (cases c) (simp add: freeMutex_def)
  show "timeAnnotatingCatcher_Extend a [Some (TimestampPtr None)] w = (Inl NilDereference, w)"
    using assms(1)
    by (simp add: timeAnnotatingCatcher_Extend_def withLock_def bindM_def stampLock[OF assms]
        deferred_def extendStep_def newTimeStampError_def returnM_def getExtended_def
        setExtended_def failM_def isPanic_def Unlock_def mutexOf_def setMutex_def eq map_upd_triv)
qed





subsection \<open>The error channel\<close>




subsection \<open>Literal messages\<close>

text \<open>
  C9. \<^verbatim>\<open>Errorf(f)\<close> with a non-empty \<open>f\<close> and no arguments stores the plain error whose
  text is exactly \<open>f\<close>, whatever \<open>f\<close> holds and whatever \<^verbatim>\<open>fmt.Errorf\<close> would make of it:
  the \<^verbatim>\<open>baseCatcher\<close> stores it as it is, the timestamp collector stores its timestamp
  wrapper. \<^verbatim>\<open>Errorf\<close> with the empty format changes nothing, whatever the arguments.
\<close>

theorem errorf_literal:
  assumes "bases w a = Some b" "mutex b = freeMutex"
    and "stampers w t = Some c" "mu c = freeMutex"
    and "f \<noteq> []"
  shows "baseCatcher_Errorf L n a f [] w =
           (Inr (), withErrs a (push (maxSize b) (errs b) (ErrorString f)) w) \<and>
         timeAnnotatingCatcher_Errorf L t f [] w =
           (Inr (), withTsErrs t
                      (push (tsMaxSize c) (tsErrs c)
                         (Some (Some (ErrorString f), clock w (ticks w), extended c)))
                      (ticked 1 w)) \<and>
         errorMethod L K (ErrorString f) = Inr f \<and>
         baseCatcher_Errorf L n a [] args w = (Inr (), w) \<and>
         timeAnnotatingCatcher_Errorf L t [] args w = (Inr (), w)"
proof -
  have leaf: "\<not> isCatcher (ErrorString f)" by (simp add: isCatcher_def)
  show ?thesis
    using Add_leaf[OF assms(1,2) leaf, of n] tsAdd_eq[OF assms(3,4), of "ErrorString f"] assms(5)
    by (simp add: baseCatcher_Errorf_def baseCatcher_New_def timeAnnotatingCatcher_Errorf_def
        timeAnnotatingCatcher_New_def returnM_def isTimestamp_def stampEntry_def)
qed

theorem errorf_literal_witness:
  "baseCatcher_Errorf demoLib 0 0 ''%s what'' [] demoWorld =
     (Inr (), withErrs 0 [ErrorString ''%s what''] demoWorld) \<and>
   timeAnnotatingCatcher_Errorf demoLib 1 ''%s what'' [] demoWorld =
     (Inr (), withTsErrs 1 [Some (Some (ErrorString ''%s what''), 1700000000, False)]
                (ticked 1 demoWorld)) \<and>
   baseCatcher_Errorf demoLib 0 0 [] [ArgBool True, ArgBool False] demoWorld = (Inr (), demoWorld)"
proof -
  have h2: "mutex demoBase = freeMutex" and h4: "mu demoStamper = freeMutex"
    by (simp_all add: demoBase_def demoStamper_def)
  have h5: "''%s what'' \<noteq> []" by simp
  have c: "clock demoWorld (ticks demoWorld) = 1700000000"
    by (simp add: demoWorld_def MakeTimestampCatcher_def makeStamper_def MakeBasicCatcher_def
        makeCatcher_def emptyWorld_def demoClock_def)
  show ?thesis
    using errorf_literal[OF demoWorld_base h2 demoWorld_stamper h4 h5,
        of demoLib 0 "\<lambda>_. Inl OutOfFuel" "[ArgBool True, ArgBool False]"] c
    by (simp add: demoBase_def demoStamper_def push_def)
qed


end
